theory Spec2Isabelle
  imports Complex_Main
begin

section \<open>Errors\<close>

text \<open>
  The notebook has no \<open>raise\<close> statement of its own. Every exception that can leave one of
  its functions is raised by Python, NumPy or PyTorch; the constructors below are those
  exception classes.
\<close>

datatype error = ValueError | RuntimeError | ZeroDivisionError | TypeError | AttributeError

definition and_then :: "error + 'a \<Rightarrow> ('a \<Rightarrow> error + 'b) \<Rightarrow> error + 'b" where
  "and_then m f = (case m of Inl e \<Rightarrow> Inl e | Inr a \<Rightarrow> f a)"

fun collect :: "(error + 'a) list \<Rightarrow> error + 'a list" where
  "collect [] = Inr []"
| "collect (m # ms) =
     (case m of Inl e \<Rightarrow> Inl e
      | Inr a \<Rightarrow> (case collect ms of Inl e \<Rightarrow> Inl e | Inr as \<Rightarrow> Inr (a # as)))"

section \<open>NumPy arrays and the plotting helper \<open>normalize\<close> (here \<open>normalize_arr\<close>)\<close>

text \<open>
  The source:
  \<^verbatim>\<open>
  def normalize(arr):
      out = np.zeros_like(arr)
      for rowno in range(arr.shape[0]):
          vals = arr[rowno, :]
          out[rowno, :] = (vals - np.min(vals)) / (np.max(vals) - np.min(vals))
      return out
\<close>
\<close>

text \<open>
  An array carries its dtype: \<open>np.zeros_like\<close> copies it, arithmetic on the array is that of
  the dtype, and a store into the array converts the stored value. The dtypes modelled are
  the binary floating types \<open>float16\<close>, \<open>float32\<close> and \<open>float64\<close>, the signed and unsigned
  integer types of a given width (8, 16, 32 or 64 bits) and \<open>bool\<close>; complex, object, string
  and date dtypes are outside the model.

  Array entries are IEEE values. The special values (both infinities and NaN) are kept,
  because \<open>0 / 0\<close> is NaN in NumPy and not \<open>0\<close> as in HOL, and a result beyond the largest
  finite value of the floating type overflows to an infinity. Rounding is left out: a
  result within the finite range is the exact real, and there is no negative zero. The
  entries of an integer array are the \<open>Fin\<close> of integers, those of a boolean array \<open>Fin 0\<close>
  and \<open>Fin 1\<close>.
\<close>

datatype scalar = Fin real | PInf | NInf | NaN

datatype dtype = Float16 | Float32 | Float64 | SInt nat | UInt nat | Boolean

record ndarray =
  dtype :: dtype
  rows :: "scalar list list"

definition is_floating :: "dtype \<Rightarrow> bool" where
  "is_floating dt = (dt = Float16 \<or> dt = Float32 \<or> dt = Float64)"

text \<open>
  The largest finite value of the floating type in which arithmetic on an array of the
  given dtype produces its floating results: the dtype itself when it is floating, and
  \<open>float64\<close>, the result type of true division, for the integer dtypes.
\<close>

fun float_max :: "dtype \<Rightarrow> real" where
  "float_max Float16 = 65504"
| "float_max Float32 = 2 ^ 128 - 2 ^ 104"
| "float_max dt = 2 ^ 1024 - 2 ^ 971"

definition overflow :: "real \<Rightarrow> real \<Rightarrow> scalar" where
  "overflow fmax r = (if fmax < r then PInf else if r < - fmax then NInf else Fin r)"

text \<open>Integer arithmetic wraps around: two's complement when signed, modulo \<open>2\<^bsup>w\<^esup>\<close> when not.\<close>

definition wrap_signed :: "nat \<Rightarrow> int \<Rightarrow> int" where
  "wrap_signed w k = (k + 2 ^ (w - 1)) mod 2 ^ w - 2 ^ (w - 1)"

definition wrap_unsigned :: "nat \<Rightarrow> int \<Rightarrow> int" where
  "wrap_unsigned w k = k mod 2 ^ w"

text \<open>The value an operation of the given dtype returns when its exact result is \<open>r\<close>.\<close>

fun fit :: "dtype \<Rightarrow> real \<Rightarrow> scalar" where
  "fit (SInt w) r = Fin (of_int (wrap_signed w \<lfloor>r\<rfloor>))"
| "fit (UInt w) r = Fin (of_int (wrap_unsigned w \<lfloor>r\<rfloor>))"
| "fit dt r = overflow (float_max dt) r"

fun np_sub :: "dtype \<Rightarrow> scalar \<Rightarrow> scalar \<Rightarrow> scalar" where
  "np_sub dt NaN _ = NaN"
| "np_sub dt _ NaN = NaN"
| "np_sub dt (Fin x) (Fin y) = fit dt (x - y)"
| "np_sub dt (Fin x) PInf = NInf"
| "np_sub dt (Fin x) NInf = PInf"
| "np_sub dt PInf PInf = NaN"
| "np_sub dt PInf _ = PInf"
| "np_sub dt NInf NInf = NaN"
| "np_sub dt NInf _ = NInf"

text \<open>
  True division, in the floating type whose largest finite value is \<open>fmax\<close>. Division by
  zero gives NaN or an infinity (and a warning), not an exception.
\<close>

fun np_div :: "real \<Rightarrow> scalar \<Rightarrow> scalar \<Rightarrow> scalar" where
  "np_div fmax NaN _ = NaN"
| "np_div fmax _ NaN = NaN"
| "np_div fmax (Fin x) (Fin y) =
     (if y \<noteq> 0 then overflow fmax (x / y)
      else if x = 0 then NaN else if 0 < x then PInf else NInf)"
| "np_div fmax (Fin x) _ = Fin 0"
| "np_div fmax PInf (Fin y) = (if 0 \<le> y then PInf else NInf)"
| "np_div fmax NInf (Fin y) = (if 0 \<le> y then NInf else PInf)"
| "np_div fmax _ _ = NaN"

text \<open>The order of the values that are not NaN.\<close>

fun np_le :: "scalar \<Rightarrow> scalar \<Rightarrow> bool" where
  "np_le NaN _ = False"
| "np_le _ NaN = False"
| "np_le NInf _ = True"
| "np_le _ PInf = True"
| "np_le (Fin x) (Fin y) = (x \<le> y)"
| "np_le _ _ = False"

definition np_lt :: "scalar \<Rightarrow> scalar \<Rightarrow> bool" where
  "np_lt a b = (np_le a b \<and> a \<noteq> b)"

text \<open>\<open>np.minimum\<close> and \<open>np.maximum\<close> of two values: a NaN operand wins.\<close>

fun minimum :: "scalar \<Rightarrow> scalar \<Rightarrow> scalar" where
  "minimum NaN _ = NaN"
| "minimum _ NaN = NaN"
| "minimum a b = (if np_le a b then a else b)"

fun maximum :: "scalar \<Rightarrow> scalar \<Rightarrow> scalar" where
  "maximum NaN _ = NaN"
| "maximum _ NaN = NaN"
| "maximum a b = (if np_le a b then b else a)"

text \<open>\<open>np.min\<close> and \<open>np.max\<close> of a one-dimensional array; an empty one raises ValueError.\<close>

fun np_min :: "scalar list \<Rightarrow> error + scalar" where
  "np_min [] = Inl ValueError"
| "np_min (v # vs) = Inr (fold minimum vs v)"

fun np_max :: "scalar list \<Rightarrow> error + scalar" where
  "np_max [] = Inl ValueError"
| "np_max (v # vs) = Inr (fold maximum vs v)"

text \<open>
  The operator \<open>-\<close> on an array and a scalar, and on two scalars, of the same dtype. NumPy
  does not define subtraction on booleans: the operator raises TypeError.
\<close>

definition subtract :: "dtype \<Rightarrow> scalar list \<Rightarrow> scalar \<Rightarrow> error + scalar list" where
  "subtract dt vals b =
     (if dt = Boolean then Inl TypeError else Inr (map (\<lambda>v. np_sub dt v b) vals))"

definition subtract_scalar :: "dtype \<Rightarrow> scalar \<Rightarrow> scalar \<Rightarrow> error + scalar" where
  "subtract_scalar dt a b = (if dt = Boolean then Inl TypeError else Inr (np_sub dt a b))"

text \<open>
  The right-hand side of the assignment in the loop body,
  \<open>(vals - np.min(vals)) / (np.max(vals) - np.min(vals))\<close>, operands evaluated left to right.
\<close>

definition normalize_row :: "dtype \<Rightarrow> scalar list \<Rightarrow> error + scalar list" where
  "normalize_row dt vals =
     and_then (np_min vals) (\<lambda>lo.
     and_then (subtract dt vals lo) (\<lambda>num.
     and_then (np_max vals) (\<lambda>hi.
     and_then (np_min vals) (\<lambda>lo'.
     and_then (subtract_scalar dt hi lo') (\<lambda>den.
       Inr (map (\<lambda>n. np_div (float_max dt) n den) num))))))"

text \<open>
  Storing a floating value into an array of the given dtype. A floating array keeps a
  value of its finite range. An integer array truncates a finite value toward
  zero when the result is in its range; what it stores otherwise (a value out of range, NaN
  or an infinity) depends on the platform, so that conversion \<open>c\<close> is a parameter. A boolean
  array stores whether the value is not zero.
\<close>

definition trunc_zero :: "real \<Rightarrow> int" where
  "trunc_zero r = (if 0 \<le> r then \<lfloor>r\<rfloor> else \<lceil>r\<rceil>)"

fun in_range :: "dtype \<Rightarrow> int \<Rightarrow> bool" where
  "in_range (SInt w) k = (- (2 ^ (w - 1)) \<le> k \<and> k < 2 ^ (w - 1))"
| "in_range (UInt w) k = (0 \<le> k \<and> k < 2 ^ w)"
| "in_range dt k = True"

fun to_int :: "(scalar \<Rightarrow> int) \<Rightarrow> dtype \<Rightarrow> scalar \<Rightarrow> scalar" where
  "to_int c dt (Fin r) =
     (if in_range dt (trunc_zero r) then Fin (of_int (trunc_zero r)) else Fin (of_int (c (Fin r))))"
| "to_int c dt v = Fin (of_int (c v))"

fun store_cast :: "(scalar \<Rightarrow> int) \<Rightarrow> dtype \<Rightarrow> scalar \<Rightarrow> scalar" where
  "store_cast c (SInt w) v = to_int c (SInt w) v"
| "store_cast c (UInt w) v = to_int c (UInt w) v"
| "store_cast c Boolean v = Fin (if v = Fin 0 then 0 else 1)"
| "store_cast c dt (Fin r) = overflow (float_max dt) r"
| "store_cast c dt v = v"

text \<open>
  Arrays are objects: a variable holds a reference. The store maps addresses to arrays;
  \<open>next_addr\<close> is the first address not yet allocated.
\<close>

record store =
  next_addr :: nat
  cell :: "nat \<Rightarrow> ndarray"

definition zeros_like :: "store \<Rightarrow> nat \<Rightarrow> nat \<times> store" where
  "zeros_like s a =
     (let arr = cell s a; p = next_addr s
      in (p, s\<lparr>next_addr := Suc p,
                cell := (cell s)(p := \<lparr>dtype = dtype arr,
                                       rows = map (map (\<lambda>_. Fin 0)) (rows arr)\<rparr>)\<rparr>))"

text \<open>\<open>out[rowno, :] = r\<close>: the row of the array at \<open>out\<close> is overwritten in place.\<close>

definition setitem_row :: "(scalar \<Rightarrow> int) \<Rightarrow> nat \<Rightarrow> nat \<Rightarrow> scalar list \<Rightarrow> store \<Rightarrow> store" where
  "setitem_row c out rowno r s =
     (let arr = cell s out
      in s\<lparr>cell := (cell s)(out :=
              arr\<lparr>rows := (rows arr)[rowno := map (store_cast c (dtype arr)) r]\<rparr>)\<rparr>)"

text \<open>
  The \<open>for rowno in range(arr.shape[0])\<close> loop. \<open>vals = arr[rowno, :]\<close> is a view of the
  input: it is read from the store at each iteration. An exception ends the call; the
  array allocated for the result is then unreachable.
\<close>

fun normalize_loop :: "(scalar \<Rightarrow> int) \<Rightarrow> nat \<Rightarrow> nat \<Rightarrow> nat list \<Rightarrow> store \<Rightarrow> error + store" where
  "normalize_loop c arr out [] s = Inr s"
| "normalize_loop c arr out (rowno # rest) s =
     (let vals = rows (cell s arr) ! rowno
      in case normalize_row (dtype (cell s arr)) vals of
           Inl e \<Rightarrow> Inl e
         | Inr r \<Rightarrow> normalize_loop c arr out rest (setitem_row c out rowno r s))"

definition normalize_arr :: "(scalar \<Rightarrow> int) \<Rightarrow> store \<Rightarrow> nat \<Rightarrow> error + nat \<times> store" where
  "normalize_arr c s arr =
     (let (out, s1) = zeros_like s arr
      in case normalize_loop c arr out [0..<length (rows (cell s1 arr))] s1 of
           Inl e \<Rightarrow> Inl e
         | Inr s2 \<Rightarrow> Inr (out, s2))"

text \<open>The formula the documentation of the helper gives for one row of finite values.\<close>

definition minmax :: "real list \<Rightarrow> real list" where
  "minmax vs = map (\<lambda>v. (v - Min (set vs)) / (Max (set vs) - Min (set vs))) vs"

text \<open>
  A store holding one matrix at address 0, the store after one call whose result has the
  rows \<open>out\<close>, the store after a second call, on that result, whose result has the rows
  \<open>out2\<close>, a conversion of the values an integer array cannot hold, and three matrices:
  one of small values, one whose first row spans more than the finite range of \<open>float32\<close>,
  and a boolean one.
\<close>

definition demo_store :: "dtype \<Rightarrow> scalar list list \<Rightarrow> store" where
  "demo_store dt rs = \<lparr>next_addr = 1, cell = (\<lambda>_. \<lparr>dtype = dt, rows = rs\<rparr>)\<rparr>"

definition demo_result :: "dtype \<Rightarrow> scalar list list \<Rightarrow> scalar list list \<Rightarrow> store" where
  "demo_result dt rs out =
     \<lparr>next_addr = 2, cell = (cell (demo_store dt rs))(1 := \<lparr>dtype = dt, rows = out\<rparr>)\<rparr>"

definition demo_second ::
  "dtype \<Rightarrow> scalar list list \<Rightarrow> scalar list list \<Rightarrow> scalar list list \<Rightarrow> store" where
  "demo_second dt rs out out2 =
     \<lparr>next_addr = 3, cell = (cell (demo_result dt rs out))(2 := \<lparr>dtype = dt, rows = out2\<rparr>)\<rparr>"

definition demo_cast :: "scalar \<Rightarrow> int" where
  "demo_cast v = 0"

definition demo_matrix :: "scalar list list" where
  "demo_matrix = [[Fin 0, Fin 1, Fin 4], [Fin 2, Fin (-2), Fin 0]]"

definition wide_matrix :: "scalar list list" where
  "wide_matrix = [[Fin (- (2 ^ 127)), Fin 0, Fin (2 ^ 127)]]"

definition bool_matrix :: "scalar list list" where
  "bool_matrix = [[Fin 1, Fin 0]]"


section \<open>PyTorch tensors\<close>

text \<open>
  A tensor of token embeddings has shape \<open>B \<times> T \<times> C\<close> and is a list of \<open>B\<close> matrices of
  \<open>T\<close> rows of \<open>C\<close> reals; its entries are exact reals (no rounding). A dimension of size
  zero is the empty list at its level, so the sizes of the dimensions below it are not
  recorded; \<open>x.size(1)\<close> of a tensor with no matrix is taken to be \<open>0\<close>.
\<close>

type_synonym tensor3 = "real list list list"

definition size1 :: "'a list list \<Rightarrow> nat" where
  "size1 x = (case x of [] \<Rightarrow> 0 | m # _ \<Rightarrow> length m)"

text \<open>
  Broadcasting along one dimension: the sizes agree, or one of them is \<open>1\<close> and that operand
  is repeated; anything else raises RuntimeError.
\<close>

definition broadcast :: "'a list \<Rightarrow> 'b list \<Rightarrow> error + ('a \<times> 'b) list" where
  "broadcast xs ys =
     (if length xs = length ys then Inr (zip xs ys)
      else if length xs = 1 then Inr (map (Pair (hd xs)) ys)
      else if length ys = 1 then Inr (map (\<lambda>x. (x, hd ys)) xs)
      else Inl RuntimeError)"

definition add1 :: "real list \<Rightarrow> real list \<Rightarrow> error + real list" where
  "add1 xs ys = and_then (broadcast xs ys) (\<lambda>ps. Inr (map (\<lambda>(a, b). a + b) ps))"

definition add2 :: "real list list \<Rightarrow> real list list \<Rightarrow> error + real list list" where
  "add2 xs ys = and_then (broadcast xs ys) (\<lambda>ps. collect (map (\<lambda>(a, b). add1 a b) ps))"

definition add3 :: "tensor3 \<Rightarrow> tensor3 \<Rightarrow> error + tensor3" where
  "add3 xs ys = and_then (broadcast xs ys) (\<lambda>ps. collect (map (\<lambda>(a, b). add2 a b) ps))"

definition shape3 :: "'a list list list \<Rightarrow> nat list list" where
  "shape3 x = map (map length) x"

text \<open>\<open>x += y\<close>: the sum must have the shape of \<open>x\<close>, which is overwritten.\<close>

definition iadd3 :: "tensor3 \<Rightarrow> tensor3 \<Rightarrow> error + tensor3" where
  "iadd3 x y =
     and_then (add3 x y) (\<lambda>r. if shape3 r = shape3 x then Inr r else Inl RuntimeError)"

text \<open>
  Random numbers come from a generator whose state has type \<open>'g\<close>; \<open>bern q g\<close> draws one
  Bernoulli sample that is \<open>True\<close> with probability \<open>q\<close> and returns the new state.
  \<open>map_st\<close> visits the elements of a list in order, threading the state.
\<close>

fun map_st :: "('a \<Rightarrow> 'g \<Rightarrow> 'b \<times> 'g) \<Rightarrow> 'a list \<Rightarrow> 'g \<Rightarrow> 'b list \<times> 'g" where
  "map_st f [] g = ([], g)"
| "map_st f (x # xs) g =
     (let (y, g1) = f x g; (ys, g2) = map_st f xs g1 in (y # ys, g2))"

definition drop_elem :: "(real \<Rightarrow> 'g \<Rightarrow> bool \<times> 'g) \<Rightarrow> real \<Rightarrow> real \<Rightarrow> 'g \<Rightarrow> real \<times> 'g" where
  "drop_elem bern p v g = (let (keep, g1) = bern (1 - p) g in ((if keep then v / (1 - p) else 0), g1))"

text \<open>
  \<open>F.dropout(x, p, training)\<close> as PyTorch documents it: a probability outside \<open>[0, 1]\<close>
  raises ValueError; outside training, or with \<open>p = 0\<close>, the input is returned and no random
  number is drawn; \<open>p = 1\<close> gives zeros; otherwise each entry is kept with probability
  \<open>1 - p\<close> and scaled by \<open>1 / (1 - p)\<close>.
\<close>

definition F_dropout ::
  "(real \<Rightarrow> 'g \<Rightarrow> bool \<times> 'g) \<Rightarrow> tensor3 \<Rightarrow> real \<Rightarrow> bool \<Rightarrow> 'g \<Rightarrow> error + tensor3 \<times> 'g" where
  "F_dropout bern x p training g =
     (if p < 0 \<or> 1 < p then Inl ValueError
      else if \<not> training \<or> p = 0 then Inr (x, g)
      else if p = 1 then Inr (map (map (map (\<lambda>_. 0))) x, g)
      else Inr (map_st (map_st (map_st (drop_elem bern p))) x g))"

section \<open>\<open>PositionalEncoding\<close>\<close>

text \<open>
  The source:
  \<^verbatim>\<open>
  class PositionalEncoding(nn.Module):
      "Implement the PE function."
      def __init__(self, d_model, dropout, max_len=500):
          super(PositionalEncoding, self).__init__()
          self.dropout = nn.Dropout(p=dropout)
          print("dropout:", dropout)
          # Compute the positional encodings once in log space.
          pe = torch.zeros(max_len, d_model)

          print("d_model:", d_model)
          position = torch.arange(0.0, max_len).unsqueeze(1)
          div_term = torch.exp(torch.arange(0.0, d_model, 2) *
                               -(math.log(10000.0) / d_model))
          pe[:, 0::2] = torch.sin(position * div_term)
          pe[:, 1::2] = torch.cos(position * div_term)
          pe = pe.unsqueeze(0)
          print("pe:", pe[:,0:2])

          self.register_buffer('pe', pe)

      def forward(self, x):

          x = x + Variable(self.pe[:, :x.size(1)],
                           requires_grad=False)
          return self.dropout(x)
\<close>
\<close>

text \<open>
  The module keeps the dropout probability of its \<open>nn.Dropout\<close>, the buffer \<open>pe\<close> of shape
  \<open>1 \<times> max_len \<times> d_model\<close> and the training flag every \<open>nn.Module\<close> has (set by the
  constructor, cleared by \<open>eval()\<close>).
\<close>

record PositionalEncoding =
  pe_dropout :: real
  pe :: tensor3
  pe_training :: bool

text \<open>\<open>torch.arange(0.0, n)\<close> and \<open>torch.arange(0.0, d, 2)\<close>.\<close>

definition arange :: "int \<Rightarrow> real list" where
  "arange n = map real [0..<nat n]"

definition arange_step2 :: "int \<Rightarrow> real list" where
  "arange_step2 d = map (\<lambda>k. real (2 * k)) [0..<nat ((d + 1) div 2)]"

text \<open>
  \<open>pe[:, start::2] = src\<close>. The slice selects the columns \<open>start, start + 2, \<dots>\<close> below \<open>d\<close>;
  \<open>src\<close> has as many rows as \<open>pe\<close> and \<open>m\<close> columns, which must be as many as the slice has,
  or one. The selected entries of each row are overwritten one by one.
\<close>

definition slice_cols :: "nat \<Rightarrow> nat \<Rightarrow> nat list" where
  "slice_cols start d = map (\<lambda>j. start + 2 * j) [0..<(d + 1 - start) div 2]"

definition set_strided :: "nat list \<Rightarrow> real list \<Rightarrow> real list \<Rightarrow> real list" where
  "set_strided idxs vals row = fold (\<lambda>(j, v) r. r[j := v]) (zip idxs vals) row"

definition setitem_cols ::
  "nat \<Rightarrow> nat \<Rightarrow> nat \<Rightarrow> real list list \<Rightarrow> real list list \<Rightarrow> error + real list list" where
  "setitem_cols start d m dest src =
     (let idxs = slice_cols start d; w = length idxs
      in if m = w then Inr (map (\<lambda>(row, vals). set_strided idxs vals row) (zip dest src))
         else if m = 1 then
           Inr (map (\<lambda>(row, vals). set_strided idxs (replicate w (hd vals)) row) (zip dest src))
         else Inl RuntimeError)"

text \<open>
  \<open>__init__(d_model, dropout, max_len)\<close>, in the order of the source: \<open>nn.Dropout\<close> checks the
  probability, \<open>torch.zeros\<close> refuses a negative size, the division by \<open>d_model\<close> raises
  ZeroDivisionError, and each of the two slice assignments checks the shapes. The calls of
  \<open>print\<close> are left out.
\<close>

definition PositionalEncoding_init :: "int \<Rightarrow> real \<Rightarrow> int \<Rightarrow> error + PositionalEncoding" where
  "PositionalEncoding_init d_model dropout max_len =
     (if dropout < 0 \<or> 1 < dropout then Inl ValueError
      else if max_len < 0 \<or> d_model < 0 then Inl RuntimeError
      else
        let pe0 = replicate (nat max_len) (replicate (nat d_model) 0);
            position = arange max_len
        in if d_model = 0 then Inl ZeroDivisionError
           else
             let div_term = map (\<lambda>a. exp (a * - (ln 10000 / real_of_int d_model)))
                                (arange_step2 d_model);
                 angle = map (\<lambda>pos. map (\<lambda>dv. pos * dv) div_term) position
             in and_then (setitem_cols 0 (nat d_model) (length div_term) pe0
                            (map (map sin) angle)) (\<lambda>pe1.
                and_then (setitem_cols 1 (nat d_model) (length div_term) pe1
                            (map (map cos) angle)) (\<lambda>pe2.
                Inr \<lparr>pe_dropout = dropout, pe = [pe2], pe_training = True\<rparr>)))"

text \<open>
  \<open>forward(x)\<close>: \<open>self.pe[:, :x.size(1)]\<close> keeps the first \<open>x.size(1)\<close> positions of the
  buffer; the sum broadcasts; \<open>self.dropout\<close> is \<open>F.dropout\<close> with the module's probability and
  training flag.
\<close>

definition PositionalEncoding_forward ::
  "(real \<Rightarrow> 'g \<Rightarrow> bool \<times> 'g) \<Rightarrow> PositionalEncoding \<Rightarrow> tensor3 \<Rightarrow> 'g \<Rightarrow> error + tensor3 \<times> 'g" where
  "PositionalEncoding_forward bern self x g =
     and_then (add3 x (map (take (size1 x)) (pe self))) (\<lambda>x'.
       F_dropout bern x' (pe_dropout self) (pe_training self) g)"

text \<open>
  The closed form of the table: row \<open>pos\<close> holds
  \<open>sin (pos \<cdot> 10000\<^bsup>-2i/d\<^esup>)\<close> at the even index \<open>2i\<close> and
  \<open>cos (pos \<cdot> 10000\<^bsup>-2i/d\<^esup>)\<close> at the odd index \<open>2i + 1\<close>.
\<close>

definition sinusoid_row :: "int \<Rightarrow> nat \<Rightarrow> real list" where
  "sinusoid_row d pos =
     map (\<lambda>j. if even j then sin (real pos * 10000 powr (- real j / real_of_int d))
              else cos (real pos * 10000 powr (- real (j - 1) / real_of_int d)))
         [0..<nat d]"

definition sinusoid_table :: "int \<Rightarrow> int \<Rightarrow> real list list" where
  "sinusoid_table d max_len = map (sinusoid_row d) [0..<nat max_len]"

definition alternating :: "nat \<Rightarrow> real list" where
  "alternating n = map (\<lambda>j. if even j then 0 else 1) [0..<n]"

text \<open>The first rows of the table added to every matrix of \<open>x\<close>, entry by entry.\<close>

definition add_table :: "tensor3 \<Rightarrow> real list list \<Rightarrow> tensor3" where
  "add_table x table = map (\<lambda>m. map2 (map2 (+)) m (take (size1 x) table)) x"

text \<open>The module built by \<open>PositionalEncoding(d, 0, 3)\<close>, and a sampler that keeps every entry.\<close>

definition demo_pe :: "int \<Rightarrow> PositionalEncoding" where
  "demo_pe d = \<lparr>pe_dropout = 0, pe = [sinusoid_table d 3], pe_training = True\<rparr>"

definition keep_all :: "real \<Rightarrow> nat \<Rightarrow> bool \<times> nat" where
  "keep_all q g = (True, Suc g)"


section \<open>\<open>TransformerEncoder\<close>\<close>

text \<open>
  The source:
  \<^verbatim>\<open>
  class TransformerEncoder(nn.Module):
      """Transformer encoder."""

      def __init__(self, args, embed_tokens, left_pad=True):
          super().__init__()
          self.dropout = args.dropout
          self.fuse_dropout_add = args.fuse_dropout_add
          self.fuse_relu_dropout = args.fuse_relu_dropout

          embed_dim = embed_tokens.embedding_dim
          self.padding_idx = embed_tokens.padding_idx
          self.max_source_positions = args.max_source_positions

          self.embed_tokens = embed_tokens
          self.embed_scale = math.sqrt(embed_dim)
          self.embed_positions = PositionalEmbedding(
              args.max_source_positions, embed_dim, self.padding_idx,
              left_pad=left_pad,
              learned=args.encoder_learned_pos,
          ) if not args.no_token_positional_embeddings else None

          self.layers = nn.ModuleList([])
          self.layers.extend([
              TransformerEncoderLayer(args)
              for i in range(args.encoder_layers)
          ])

          self.normalize = args.encoder_normalize_before
          if self.normalize:
              self.layer_norm = FusedLayerNorm(embed_dim) if args.fuse_layer_norm else nn.LayerNorm(embed_dim)

      def forward(self, src_tokens, src_lengths):
          # embed tokens and positions
          x = self.embed_scale * self.embed_tokens(src_tokens)
          if self.embed_positions is not None:
              x += self.embed_positions(src_tokens)
          x = F.dropout(x, p=self.dropout, training=self.training)

          # B x T x C -> T x B x C
          # The tensor needs to copy transposed because
          # fused dropout is not capable of handing strided data
          if self.fuse_dropout_add :
              x = x.transpose(0, 1).contiguous()
          else :
              x = x.transpose(0, 1)

          # compute padding mask
          encoder_padding_mask = src_tokens.eq(self.padding_idx)
          if not encoder_padding_mask.any():
              _encoder_padding_mask = None
          else:
              _encoder_padding_mask = encoder_padding_mask

          # encoder layers
          for layer in self.layers:
              x = layer(x, _encoder_padding_mask)

          if self.normalize:
              x = self.layer_norm(x)

          return x, encoder_padding_mask # x.shape == T x B x C, encoder_padding_mask.shape == B x T
\<close>
\<close>

text \<open>
  \<open>src_tokens\<close> is a \<open>B \<times> T\<close> tensor of token ids, a padding mask a \<open>B \<times> T\<close> tensor of
  booleans. The embedding, the positional embedding, the encoder layers and the layer
  normalisation are modules of the framework the notebook calls into: a module is called
  with the training flag of its parent, its input and the state of the random generator,
  and raises or returns its output with the new generator state.
\<close>

type_synonym tokens = "int list list"

type_synonym padding_mask = "bool list list"

type_synonym ('i, 'o, 'g) nn_module = "bool \<Rightarrow> 'i \<Rightarrow> 'g \<Rightarrow> error + 'o \<times> 'g"

record args =
  args_dropout :: real
  args_fuse_dropout_add :: bool
  args_fuse_relu_dropout :: bool
  args_max_source_positions :: int
  args_encoder_learned_pos :: bool
  args_no_token_positional_embeddings :: bool
  args_encoder_layers :: int
  args_encoder_normalize_before :: bool
  args_fuse_layer_norm :: bool

record 'g Embedding =
  embedding_dim :: int
  padding_idx :: "int option"
  lookup :: "(tokens, tensor3, 'g) nn_module"

text \<open>
  The constructors of the framework that \<open>__init__\<close> calls. A constructor draws the initial
  parameters of the module from the generator, so it takes and returns its state.
\<close>

record 'g framework =
  PositionalEmbedding ::
    "int \<Rightarrow> int \<Rightarrow> int option \<Rightarrow> bool \<Rightarrow> bool \<Rightarrow> 'g \<Rightarrow> error + (tokens, tensor3, 'g) nn_module \<times> 'g"
  TransformerEncoderLayer ::
    "args \<Rightarrow> 'g \<Rightarrow> error + (tensor3 \<times> padding_mask option, tensor3, 'g) nn_module \<times> 'g"
  FusedLayerNorm :: "int \<Rightarrow> 'g \<Rightarrow> error + (tensor3, tensor3, 'g) nn_module \<times> 'g"
  LayerNorm :: "int \<Rightarrow> 'g \<Rightarrow> error + (tensor3, tensor3, 'g) nn_module \<times> 'g"

text \<open>
  The attributes of the encoder. \<open>self.padding_idx\<close> and \<open>self.normalize\<close> are the fields
  \<open>self_padding_idx\<close> and \<open>self_normalize\<close>; \<open>layer_norm\<close> is \<open>None\<close> when the attribute was
  never assigned.
\<close>

record 'g TransformerEncoder =
  dropout :: real
  fuse_dropout_add :: bool
  fuse_relu_dropout :: bool
  self_padding_idx :: "int option"
  max_source_positions :: int
  embed_tokens :: "'g Embedding"
  embed_scale :: real
  embed_positions :: "(tokens, tensor3, 'g) nn_module option"
  layers :: "(tensor3 \<times> padding_mask option, tensor3, 'g) nn_module list"
  self_normalize :: bool
  layer_norm :: "(tensor3, tensor3, 'g) nn_module option"
  training :: bool

text \<open>\<open>[TransformerEncoderLayer(args) for i in range(n)]\<close>: the first layer built is the first of the list.\<close>

fun make_layers ::
  "'g framework \<Rightarrow> args \<Rightarrow> nat \<Rightarrow> 'g \<Rightarrow>
   error + (tensor3 \<times> padding_mask option, tensor3, 'g) nn_module list \<times> 'g" where
  "make_layers fw a 0 g = Inr ([], g)"
| "make_layers fw a (Suc n) g =
     (case TransformerEncoderLayer fw a g of
        Inl e \<Rightarrow> Inl e
      | Inr (l, g1) \<Rightarrow>
          (case make_layers fw a n g1 of
             Inl e \<Rightarrow> Inl e
           | Inr (ls, g2) \<Rightarrow> Inr (l # ls, g2)))"

text \<open>
  \<open>__init__(args, embed_tokens, left_pad)\<close>. \<open>math.sqrt\<close> raises ValueError on a negative
  argument; \<open>range\<close> of a negative count is empty.
\<close>

definition TransformerEncoder_init ::
  "'g framework \<Rightarrow> args \<Rightarrow> 'g Embedding \<Rightarrow> bool \<Rightarrow> 'g \<Rightarrow> error + 'g TransformerEncoder \<times> 'g" where
  "TransformerEncoder_init fw a et left_pad g =
     (let embed_dim = embedding_dim et
      in if embed_dim < 0 then Inl ValueError
         else
           and_then
             (if \<not> args_no_token_positional_embeddings a
              then and_then (PositionalEmbedding fw (args_max_source_positions a) embed_dim
                               (padding_idx et) left_pad (args_encoder_learned_pos a) g)
                     (\<lambda>(ep, g1). Inr (Some ep, g1))
              else Inr (None, g))
             (\<lambda>(ep, g1).
           and_then (make_layers fw a (nat (args_encoder_layers a)) g1) (\<lambda>(ls, g2).
           and_then
             (if args_encoder_normalize_before a
              then and_then (if args_fuse_layer_norm a then FusedLayerNorm fw embed_dim g2
                             else LayerNorm fw embed_dim g2)
                     (\<lambda>(n, g3). Inr (Some n, g3))
              else Inr (None, g2))
             (\<lambda>(norm_layer, g3).
           Inr (\<lparr>dropout = args_dropout a,
                 fuse_dropout_add = args_fuse_dropout_add a,
                 fuse_relu_dropout = args_fuse_relu_dropout a,
                 self_padding_idx = padding_idx et,
                 max_source_positions = args_max_source_positions a,
                 embed_tokens = et,
                 embed_scale = sqrt (real_of_int embed_dim),
                 embed_positions = ep,
                 layers = ls,
                 self_normalize = args_encoder_normalize_before a,
                 layer_norm = norm_layer,
                 training = True\<rparr>, g3)))))"

definition scale3 :: "real \<Rightarrow> tensor3 \<Rightarrow> tensor3" where
  "scale3 c x = map (map (map (\<lambda>v. c * v))) x"

text \<open>\<open>x = self.embed_scale * self.embed_tokens(src_tokens)\<close>\<close>

definition forward_embed ::
  "'g TransformerEncoder \<Rightarrow> tokens \<Rightarrow> 'g \<Rightarrow> error + tensor3 \<times> 'g" where
  "forward_embed self src_tokens g =
     and_then (lookup (embed_tokens self) (training self) src_tokens g) (\<lambda>(e, g1).
       Inr (scale3 (embed_scale self) e, g1))"

text \<open>\<open>if self.embed_positions is not None: x += self.embed_positions(src_tokens)\<close>\<close>

definition forward_positions ::
  "'g TransformerEncoder \<Rightarrow> tokens \<Rightarrow> tensor3 \<Rightarrow> 'g \<Rightarrow> error + tensor3 \<times> 'g" where
  "forward_positions self src_tokens x g =
     (case embed_positions self of
        None \<Rightarrow> Inr (x, g)
      | Some ep \<Rightarrow>
          and_then (ep (training self) src_tokens g) (\<lambda>(pos, g1).
          and_then (iadd3 x pos) (\<lambda>x'. Inr (x', g1))))"

text \<open>
  \<open>src_tokens.eq(self.padding_idx)\<close>; comparing with \<open>None\<close> raises TypeError. The layers
  receive \<open>None\<close> in place of a mask with no true entry.
\<close>

definition eq_mask :: "tokens \<Rightarrow> int option \<Rightarrow> error + padding_mask" where
  "eq_mask src_tokens pad =
     (case pad of None \<Rightarrow> Inl TypeError
      | Some p \<Rightarrow> Inr (map (map (\<lambda>t. t = p)) src_tokens))"

definition any_true :: "padding_mask \<Rightarrow> bool" where
  "any_true m = list_ex (list_ex (\<lambda>b. b)) m"

definition layer_mask :: "padding_mask \<Rightarrow> padding_mask option" where
  "layer_mask encoder_padding_mask =
     (if \<not> any_true encoder_padding_mask then None else Some encoder_padding_mask)"

text \<open>\<open>for layer in self.layers: x = layer(x, _encoder_padding_mask)\<close>\<close>

fun run_layers ::
  "(tensor3 \<times> padding_mask option, tensor3, 'g) nn_module list \<Rightarrow> bool \<Rightarrow>
   padding_mask option \<Rightarrow> tensor3 \<Rightarrow> 'g \<Rightarrow> error + tensor3 \<times> 'g" where
  "run_layers [] tr m x g = Inr (x, g)"
| "run_layers (layer # rest) tr m x g =
     (case layer tr (x, m) g of
        Inl e \<Rightarrow> Inl e
      | Inr (x', g') \<Rightarrow> run_layers rest tr m x' g')"

text \<open>
  The body of \<open>forward\<close> after its first assignment. \<open>x.transpose(0, 1)\<close> exchanges the batch
  and the time dimension; \<open>contiguous()\<close> changes the memory layout only.
\<close>

definition forward_rest ::
  "(real \<Rightarrow> 'g \<Rightarrow> bool \<times> 'g) \<Rightarrow> 'g TransformerEncoder \<Rightarrow> tokens \<Rightarrow> tensor3 \<Rightarrow> 'g \<Rightarrow>
   error + (tensor3 \<times> padding_mask) \<times> 'g" where
  "forward_rest bern self src_tokens x g =
     and_then (forward_positions self src_tokens x g) (\<lambda>(x1, g1).
     and_then (F_dropout bern x1 (dropout self) (training self) g1) (\<lambda>(x2, g2).
     let x3 = (if fuse_dropout_add self then transpose x2 else transpose x2)
     in and_then (eq_mask src_tokens (self_padding_idx self)) (\<lambda>encoder_padding_mask.
        and_then (run_layers (layers self) (training self) (layer_mask encoder_padding_mask) x3 g2)
          (\<lambda>(x4, g3).
        and_then
          (if self_normalize self
           then (case layer_norm self of
                   None \<Rightarrow> Inl AttributeError
                 | Some norm_layer \<Rightarrow> norm_layer (training self) x4 g3)
           else Inr (x4, g3))
          (\<lambda>(x5, g4). Inr ((x5, encoder_padding_mask), g4))))))"

definition TransformerEncoder_forward ::
  "(real \<Rightarrow> 'g \<Rightarrow> bool \<times> 'g) \<Rightarrow> 'g TransformerEncoder \<Rightarrow> tokens \<Rightarrow> int list \<Rightarrow> 'g \<Rightarrow>
   error + (tensor3 \<times> padding_mask) \<times> 'g" where
  "TransformerEncoder_forward bern self src_tokens src_lengths g =
     and_then (forward_embed self src_tokens g) (\<lambda>(x, g0). forward_rest bern self src_tokens x g0)"


section \<open>The sequence of operations the encoder is documented to perform\<close>

text \<open>
  The first \<open>n\<close> layers of a list applied one after another: layer \<open>i\<close> receives the output
  of layer \<open>i - 1\<close>.
\<close>

fun layers_in_order ::
  "nat \<Rightarrow> (tensor3 \<times> padding_mask option, tensor3, 'g) nn_module list \<Rightarrow> bool \<Rightarrow>
   padding_mask option \<Rightarrow> tensor3 \<Rightarrow> 'g \<Rightarrow> error + tensor3 \<times> 'g" where
  "layers_in_order 0 ls tr m x g = Inr (x, g)"
| "layers_in_order (Suc n) ls tr m x g =
     and_then (layers_in_order n ls tr m x g) (\<lambda>(y, g'). (ls ! n) tr (y, m) g')"

text \<open>
  The steps of the documented sequence up to dropout, written from the arguments of the
  constructor and the positional module it built: the embedding scaled entry by entry by
  \<open>\<surd>embed_dim\<close>, the positional embedding added entry by entry unless
  \<open>no_token_positional_embeddings\<close> (when the positional module returns a tensor of another
  shape, the in-place sum of PyTorch broadcasts it or raises), and dropout.
\<close>

definition sequence_to_dropout ::
  "(real \<Rightarrow> 'g \<Rightarrow> bool \<times> 'g) \<Rightarrow> args \<Rightarrow> 'g Embedding \<Rightarrow> (tokens, tensor3, 'g) nn_module \<Rightarrow>
   bool \<Rightarrow> tokens \<Rightarrow> 'g \<Rightarrow> error + tensor3 \<times> 'g" where
  "sequence_to_dropout bern a et pos tr src g =
     and_then (lookup et tr src g) (\<lambda>(e, g0).
     let x0 = map (map (map (\<lambda>v. sqrt (real_of_int (embedding_dim et)) * v))) e
     in and_then
          (if args_no_token_positional_embeddings a then Inr (x0, g0)
           else and_then (pos tr src g0) (\<lambda>(p, g1).
                if shape3 p = shape3 x0 then Inr (map2 (map2 (map2 (+))) x0 p, g1)
                else and_then (iadd3 x0 p) (\<lambda>x. Inr (x, g1))))
          (\<lambda>(x1, g1). F_dropout bern x1 (args_dropout a) tr g1))"

text \<open>
  The rest of the documented sequence: exactly \<open>encoder_layers\<close> layers, in the order of
  the list, each called with the mask argument \<open>m\<close>, and the final normalisation if and only
  if \<open>encoder_normalize_before\<close>.
\<close>

definition sequence_from_layers ::
  "args \<Rightarrow> (tensor3 \<times> padding_mask option, tensor3, 'g) nn_module list \<Rightarrow>
   (tensor3, tensor3, 'g) nn_module \<Rightarrow> bool \<Rightarrow> padding_mask option \<Rightarrow> tensor3 \<Rightarrow> 'g \<Rightarrow>
   error + tensor3 \<times> 'g" where
  "sequence_from_layers a ls nl tr m x g =
     and_then (layers_in_order (nat (args_encoder_layers a)) ls tr m x g) (\<lambda>(x3, g3).
       if args_encoder_normalize_before a then nl tr x3 g3 else Inr (x3, g3))"

text \<open>
  The sequence exactly as claim C3 words it: the layers follow dropout directly. The claim
  does not say which mask argument the layers receive; it is the parameter \<open>m\<close>.
\<close>

definition claimed_sequence ::
  "(real \<Rightarrow> 'g \<Rightarrow> bool \<times> 'g) \<Rightarrow> args \<Rightarrow> 'g Embedding \<Rightarrow> (tokens, tensor3, 'g) nn_module \<Rightarrow>
   (tensor3 \<times> padding_mask option, tensor3, 'g) nn_module list \<Rightarrow> (tensor3, tensor3, 'g) nn_module \<Rightarrow>
   bool \<Rightarrow> padding_mask option \<Rightarrow> tokens \<Rightarrow> 'g \<Rightarrow> error + tensor3 \<times> 'g" where
  "claimed_sequence bern a et pos ls nl tr m src g =
     and_then (sequence_to_dropout bern a et pos tr src g) (\<lambda>(x2, g2).
       sequence_from_layers a ls nl tr m x2 g2)"

text \<open>
  The sequence with the two steps the code has between dropout and the layers: the
  padding mask \<open>src_tokens == padding_idx\<close> is computed (TypeError when \<open>padding_idx\<close> is
  \<open>None\<close>), and the layers run on the tensor with its first two dimensions exchanged, with
  that mask, or \<open>None\<close> when it has no true entry. The result is the pair of the final
  tensor and the mask.
\<close>

definition encoder_sequence ::
  "(real \<Rightarrow> 'g \<Rightarrow> bool \<times> 'g) \<Rightarrow> args \<Rightarrow> 'g Embedding \<Rightarrow> (tokens, tensor3, 'g) nn_module \<Rightarrow>
   (tensor3 \<times> padding_mask option, tensor3, 'g) nn_module list \<Rightarrow> (tensor3, tensor3, 'g) nn_module \<Rightarrow>
   bool \<Rightarrow> tokens \<Rightarrow> 'g \<Rightarrow> error + (tensor3 \<times> padding_mask) \<times> 'g" where
  "encoder_sequence bern a et pos ls nl tr src g =
     and_then (sequence_to_dropout bern a et pos tr src g) (\<lambda>(x2, g2).
     and_then
       (case padding_idx et of
          None \<Rightarrow> Inl TypeError
        | Some p \<Rightarrow> Inr (map (map (\<lambda>t. t = p)) src))
       (\<lambda>m.
     and_then
       (sequence_from_layers a ls nl tr
          (if list_ex (list_ex (\<lambda>b. b)) m then Some m else None) (transpose x2) g2)
       (\<lambda>(x4, g4). Inr ((x4, m), g4))))"

text \<open>The generator state after \<open>i\<close> successful calls of \<open>TransformerEncoderLayer(args)\<close>.\<close>

fun ctor_state :: "'g framework \<Rightarrow> args \<Rightarrow> 'g \<Rightarrow> nat \<Rightarrow> 'g" where
  "ctor_state fw a g 0 = g"
| "ctor_state fw a g (Suc i) =
     (case TransformerEncoderLayer fw a (ctor_state fw a g i) of
        Inl e \<Rightarrow> ctor_state fw a g i
      | Inr (l, g') \<Rightarrow> g')"

text \<open>
  \<open>with_state g' r\<close> is the result \<open>r\<close> of a call with the generator state it returns
  replaced by \<open>g'\<close>. A module does not use the random generator under the training flag
  \<open>tr\<close> when a call from any state \<open>g'\<close> gives what a call from any other state gives, and
  returns \<open>g'\<close> as it was passed.
\<close>

definition with_state :: "'g \<Rightarrow> error + 'a \<times> 'g \<Rightarrow> error + 'a \<times> 'g" where
  "with_state g' r = (case r of Inl e \<Rightarrow> Inl e | Inr (y, _) \<Rightarrow> Inr (y, g'))"

definition rng_free :: "bool \<Rightarrow> ('i, 'o, 'g) nn_module \<Rightarrow> bool" where
  "rng_free tr m = (\<forall>i g g'. m tr i g' = with_state g' (m tr i g))"


section \<open>A small encoder\<close>

text \<open>
  A framework whose modules are simple enough to run by hand: the embedding of token \<open>t\<close> is
  \<open>[t, 0, 0, 0]\<close>, every position is embedded as \<open>[0, 1, 0, 1]\<close>, the layer built when the
  generator state is \<open>g\<close> maps an entry \<open>v\<close> to \<open>(g + 1) \<cdot> v + 1\<close>, and the normalisation
  returns its input. Every constructor advances the generator.
\<close>

definition demo_args :: args where
  "demo_args = \<lparr>args_dropout = 0, args_fuse_dropout_add = False, args_fuse_relu_dropout = False,
     args_max_source_positions = 8, args_encoder_learned_pos = False,
     args_no_token_positional_embeddings = False, args_encoder_layers = 2,
     args_encoder_normalize_before = True, args_fuse_layer_norm = False\<rparr>"

definition demo_lookup :: "(tokens, tensor3, nat) nn_module" where
  "demo_lookup tr src g = Inr (map (map (\<lambda>t. [real_of_int t, 0, 0, 0])) src, g)"

definition demo_embed :: "nat Embedding" where
  "demo_embed = \<lparr>embedding_dim = 4, padding_idx = Some 1, lookup = demo_lookup\<rparr>"

definition demo_positional :: "(tokens, tensor3, nat) nn_module" where
  "demo_positional tr src g = Inr (map (map (\<lambda>t. [0, 1, 0, 1])) src, g)"

definition demo_layer :: "nat \<Rightarrow> (tensor3 \<times> padding_mask option, tensor3, nat) nn_module" where
  "demo_layer k tr xm g = Inr (map (map (map (\<lambda>v. real k * v + 1))) (fst xm), g)"

definition demo_norm :: "(tensor3, tensor3, nat) nn_module" where
  "demo_norm tr x g = Inr (x, g)"

definition demo_fw :: "nat framework" where
  "demo_fw = \<lparr>PositionalEmbedding = (\<lambda>n d pad lp learned g. Inr (demo_positional, Suc g)),
     TransformerEncoderLayer = (\<lambda>a g. Inr (demo_layer (Suc g), Suc g)),
     FusedLayerNorm = (\<lambda>d g. Inr (demo_norm, Suc g)),
     LayerNorm = (\<lambda>d g. Inr (demo_norm, Suc g))\<rparr>"

definition demo_encoder :: "nat TransformerEncoder" where
  "demo_encoder = \<lparr>dropout = 0, fuse_dropout_add = False, fuse_relu_dropout = False,
     self_padding_idx = Some 1, max_source_positions = 8, embed_tokens = demo_embed,
     embed_scale = 2, embed_positions = Some demo_positional,
     layers = [demo_layer 2, demo_layer 3], self_normalize = True,
     layer_norm = Some demo_norm, training = True\<rparr>"

text \<open>
  A layer with a dropout of its own, which the encoder's \<open>dropout\<close> attribute does not
  control: in training mode it draws from the generator (here it scales its input by the
  successor of the generator state, and advances the state). An encoder with one such layer.
\<close>

definition noisy_layer :: "(tensor3 \<times> padding_mask option, tensor3, nat) nn_module" where
  "noisy_layer tr xm g =
     (if tr then Inr (map (map (map (\<lambda>v. real (Suc g) * v))) (fst xm), Suc g)
      else Inr (fst xm, g))"

definition noisy_encoder :: "nat TransformerEncoder" where
  "noisy_encoder = demo_encoder\<lparr>layers := [noisy_layer]\<rparr>"

section \<open>Properties of \<open>normalize\<close>\<close>

lemma and_then_Inr [simp]: "and_then (Inr a) f = f a"
  by (simp add: and_then_def)

lemma and_then_Inl [simp]: "and_then (Inl e) f = Inl e"
  by (simp add: and_then_def)

lemma fold_minimum_Fin: "fold minimum (map Fin vs) (Fin v) = Fin (fold min vs v)"
  by (induction vs arbitrary: v) (auto simp: min_def)

lemma fold_maximum_Fin: "fold maximum (map Fin vs) (Fin v) = Fin (fold max vs v)"
  by (induction vs arbitrary: v) (auto simp: max_def)

lemma np_min_Fin: "vs \<noteq> [] \<Longrightarrow> np_min (map Fin vs) = Inr (Fin (Min (set vs)))"
proof (cases vs)
  case (Cons a list)
  then show ?thesis using Min.set_eq_fold[of a list] by (simp add: fold_minimum_Fin)
qed simp

lemma np_max_Fin: "vs \<noteq> [] \<Longrightarrow> np_max (map Fin vs) = Inr (Fin (Max (set vs)))"
proof (cases vs)
  case (Cons a list)
  then show ?thesis using Max.set_eq_fold[of a list] by (simp add: fold_maximum_Fin)
qed simp

lemma float_max_ge_1: "1 \<le> float_max dt"
  by (cases dt) simp_all

lemma overflow_Fin: "- fmax \<le> r \<Longrightarrow> r \<le> fmax \<Longrightarrow> overflow fmax r = Fin r"
  by (simp add: overflow_def)

lemma fit_floating: "is_floating dt \<Longrightarrow> fit dt r = overflow (float_max dt) r"
  by (cases dt) (simp_all add: is_floating_def)

lemma normalize_row_Fin:
  assumes "is_floating dt" "vs \<noteq> []" "Min (set vs) < Max (set vs)"
    and "Max (set vs) - Min (set vs) \<le> float_max dt"
  shows "normalize_row dt (map Fin vs) =
     Inr (map (\<lambda>v. Fin ((v - Min (set vs)) / (Max (set vs) - Min (set vs)))) vs)"
proof -
  let ?lo = "Min (set vs)" and ?hi = "Max (set vs)" and ?f = "float_max dt"
  have nb: "dt \<noteq> Boolean" using assms(1) by (auto simp: is_floating_def)
  have f1: "1 \<le> ?f" by (rule float_max_ge_1)
  have den: "np_sub dt (Fin ?hi) (Fin ?lo) = Fin (?hi - ?lo)"
    using assms(1,3,4) by (simp add: fit_floating overflow_Fin)
  have num: "np_sub dt (Fin v) (Fin ?lo) = Fin (v - ?lo)" if "v \<in> set vs" for v
  proof -
    have "?lo \<le> v" "v \<le> ?hi" using that by simp_all
    then show ?thesis using assms(1,4) by (simp add: fit_floating overflow_Fin)
  qed
  have quo: "np_div ?f (Fin (v - ?lo)) (Fin (?hi - ?lo)) = Fin ((v - ?lo) / (?hi - ?lo))"
    if "v \<in> set vs" for v
  proof -
    have b: "?lo \<le> v" "v \<le> ?hi" using that by simp_all
    then have q: "0 \<le> (v - ?lo) / (?hi - ?lo)" "(v - ?lo) / (?hi - ?lo) \<le> 1"
      using assms(3) by simp_all
    have "overflow ?f ((v - ?lo) / (?hi - ?lo)) = Fin ((v - ?lo) / (?hi - ?lo))"
      using q f1 by (intro overflow_Fin) linarith+
    then show ?thesis using assms(3) by simp
  qed
  have M: "map (\<lambda>n. np_div ?f n (Fin (?hi - ?lo))) (map (\<lambda>v. np_sub dt v (Fin ?lo)) (map Fin vs)) =
        map (\<lambda>v. Fin ((v - ?lo) / (?hi - ?lo))) vs"
    unfolding map_map by (rule map_cong[OF refl]) (simp only: o_apply num quo)
  have sub: "subtract dt (map Fin vs) (Fin ?lo) =
      Inr (map (\<lambda>v. np_sub dt v (Fin ?lo)) (map Fin vs))"
    using nb by (simp add: subtract_def)
  have subs: "subtract_scalar dt (Fin ?hi) (Fin ?lo) = Inr (Fin (?hi - ?lo))"
    using nb unfolding subtract_scalar_def den by simp
  show ?thesis
    unfolding normalize_row_def np_min_Fin[OF assms(2)] np_max_Fin[OF assms(2)]
      and_then_Inr sub subs M ..
qed

lemma normalize_row_nonempty:
  "dt \<noteq> Boolean \<Longrightarrow> vals \<noteq> [] \<Longrightarrow> \<exists>r. normalize_row dt vals = Inr r \<and> length r = length vals"
  by (cases vals) (simp_all add: normalize_row_def subtract_def subtract_scalar_def)

lemma normalize_row_length: "normalize_row dt vals = Inr r \<Longrightarrow> length r = length vals"
  by (cases vals) (auto simp: normalize_row_def subtract_def subtract_scalar_def split: if_splits)

lemma setitem_row_other: "out \<noteq> a \<Longrightarrow> cell (setitem_row c out k r s) a = cell s a"
  by (simp add: setitem_row_def Let_def)

lemma normalize_loop_eq:
  assumes "out \<noteq> arr" and "k \<le> length (rows (cell s arr))"
    and "length (rows (cell s out)) = length (rows (cell s arr))"
  shows "normalize_loop c arr out [k..<length (rows (cell s arr))] s =
    (case collect (map (normalize_row (dtype (cell s arr))) (drop k (rows (cell s arr)))) of
       Inl e \<Rightarrow> Inl e
     | Inr outs \<Rightarrow> Inr (s\<lparr>cell := (cell s)(out := (cell s out)\<lparr>rows :=
          take k (rows (cell s out)) @ map (map (store_cast c (dtype (cell s out)))) outs\<rparr>)\<rparr>))"
  using assms
proof (induction "length (rows (cell s arr)) - k" arbitrary: k s)
  case 0
  then show ?case by simp
next
  case (Suc n)
  let ?rs = "rows (cell s arr)"
  from Suc have k: "k < length ?rs" by simp
  then have upt: "[k..<length ?rs] = k # [Suc k..<length ?rs]"
    by (simp add: upt_conv_Cons)
  have dr: "drop k ?rs = ?rs ! k # drop (Suc k) ?rs"
    using k by (simp add: Cons_nth_drop_Suc)
  show ?case
  proof (cases "normalize_row (dtype (cell s arr)) (?rs ! k)")
    case (Inl e)
    then show ?thesis by (simp add: upt dr)
  next
    case (Inr r)
    let ?s' = "setitem_row c out k r s"
    have arr': "cell ?s' arr = cell s arr"
      using Suc.prems(1) by (simp add: setitem_row_other)
    have out': "cell ?s' out = (cell s out)\<lparr>rows := (rows (cell s out))[k := map (store_cast c (dtype (cell s out))) r]\<rparr>"
      by (simp add: setitem_row_def Let_def)
    have IH: "normalize_loop c arr out [Suc k..<length (rows (cell ?s' arr))] ?s' =
      (case collect (map (normalize_row (dtype (cell ?s' arr))) (drop (Suc k) (rows (cell ?s' arr)))) of
       Inl e \<Rightarrow> Inl e
     | Inr outs \<Rightarrow> Inr (?s'\<lparr>cell := (cell ?s')(out := (cell ?s' out)\<lparr>rows :=
          take (Suc k) (rows (cell ?s' out)) @ map (map (store_cast c (dtype (cell ?s' out)))) outs\<rparr>)\<rparr>))"
      apply (rule Suc.hyps(1))
      using Suc.hyps(2) Suc.prems k by (simp_all add: arr' out')
    have tk: "take (Suc k) ((rows (cell s out))[k := x]) = take k (rows (cell s out)) @ [x]" for x
      using k Suc.prems(3) by (simp add: take_Suc_conv_app_nth)
    have step: "normalize_loop c arr out [k..<length ?rs] s =
        normalize_loop c arr out [Suc k..<length (rows (cell ?s' arr))] ?s'"
      using Inr by (simp add: upt arr')
    show ?thesis
      unfolding step IH
      using Inr by (simp add: dr arr' out' tk setitem_row_def Let_def split: sum.splits)
  qed
qed

lemma normalize_eq:
  assumes "arr < next_addr s"
  shows "normalize_arr c s arr =
    (case collect (map (normalize_row (dtype (cell s arr))) (rows (cell s arr))) of
       Inl e \<Rightarrow> Inl e
     | Inr outs \<Rightarrow> Inr (next_addr s,
         s\<lparr>next_addr := Suc (next_addr s),
           cell := (cell s)(next_addr s := \<lparr>dtype = dtype (cell s arr),
             rows = map (map (store_cast c (dtype (cell s arr)))) outs\<rparr>)\<rparr>))"
proof -
  obtain out s1 where z: "zeros_like s arr = (out, s1)" by (cases "zeros_like s arr")
  then have out: "out = next_addr s" and
    s1: "s1 = s\<lparr>next_addr := Suc (next_addr s),
                cell := (cell s)(next_addr s := \<lparr>dtype = dtype (cell s arr),
                                       rows = map (map (\<lambda>_. Fin 0)) (rows (cell s arr))\<rparr>)\<rparr>"
    by (auto simp: zeros_like_def Let_def)
  have ne: "out \<noteq> arr" using assms out by simp
  have a1: "cell s1 arr = cell s arr" using ne out s1 by simp
  have o1: "cell s1 out = \<lparr>dtype = dtype (cell s arr), rows = map (map (\<lambda>_. Fin 0)) (rows (cell s arr))\<rparr>"
    using out s1 by simp
  have L: "normalize_loop c arr out [0..<length (rows (cell s1 arr))] s1 =
    (case collect (map (normalize_row (dtype (cell s1 arr))) (drop 0 (rows (cell s1 arr)))) of
       Inl e \<Rightarrow> Inl e
     | Inr outs \<Rightarrow> Inr (s1\<lparr>cell := (cell s1)(out := (cell s1 out)\<lparr>rows :=
          take 0 (rows (cell s1 out)) @ map (map (store_cast c (dtype (cell s1 out)))) outs\<rparr>)\<rparr>))"
    by (rule normalize_loop_eq) (simp_all add: ne a1 o1)
  note L' = L[unfolded a1 o1, simplified]
  show ?thesis
    unfolding normalize_arr_def z
    by (simp add: L' a1 split: sum.splits) (simp add: s1 out)
qed



lemma collect_map_Inr:
  "(\<And>x. x \<in> set xs \<Longrightarrow> f x = Inr (g x)) \<Longrightarrow> collect (map f xs) = Inr (map g xs)"
  by (induction xs) simp_all

lemma collect_nth:
  "collect ms = Inr as \<Longrightarrow> length as = length ms \<and> (\<forall>i<length ms. ms ! i = Inr (as ! i))"
proof (induction ms arbitrary: as)
  case Nil
  then show ?case by simp
next
  case (Cons m ms)
  then show ?case
    by (auto split: sum.splits simp: nth_Cons split: nat.splits)
qed

lemma normalize_row_minmax:
  "is_floating dt \<Longrightarrow> vs \<noteq> [] \<Longrightarrow> Min (set vs) < Max (set vs) \<Longrightarrow>
   Max (set vs) - Min (set vs) \<le> float_max dt \<Longrightarrow>
   normalize_row dt (map Fin vs) = Inr (map Fin (minmax vs))"
  by (simp add: normalize_row_Fin minmax_def o_def)

lemma minmax_bounds:
  assumes "vs \<noteq> []" "Min (set vs) < Max (set vs)"
  shows "\<forall>q \<in> set (minmax vs). 0 \<le> q \<and> q \<le> 1" "0 \<in> set (minmax vs)" "1 \<in> set (minmax vs)"
proof -
  let ?lo = "Min (set vs)" and ?hi = "Max (set vs)"
  have fin: "finite (set vs)" "set vs \<noteq> {}" using assms(1) by simp_all
  have lo_in: "?lo \<in> set vs" and hi_in: "?hi \<in> set vs"
    using fin by (simp_all add: Min_in Max_in)
  show "\<forall>q \<in> set (minmax vs). 0 \<le> q \<and> q \<le> 1"
  proof
    fix q assume "q \<in> set (minmax vs)"
    then obtain v where v: "v \<in> set vs" and q: "q = (v - ?lo) / (?hi - ?lo)"
      by (auto simp: minmax_def)
    have "?lo \<le> v" "v \<le> ?hi" using v fin by simp_all
    then show "0 \<le> q \<and> q \<le> 1" using assms(2) by (simp add: q)
  qed
  have "(\<lambda>v. (v - ?lo) / (?hi - ?lo)) ?lo \<in> (\<lambda>v. (v - ?lo) / (?hi - ?lo)) ` set vs"
    using lo_in by (rule imageI)
  then show "0 \<in> set (minmax vs)" by (simp add: minmax_def)
  have "(\<lambda>v. (v - ?lo) / (?hi - ?lo)) ?hi \<in> (\<lambda>v. (v - ?lo) / (?hi - ?lo)) ` set vs"
    using hi_in by (rule imageI)
  then show "1 \<in> set (minmax vs)" using assms(2) by (simp add: minmax_def)
qed

lemma unit_range_min_max:
  assumes "\<forall>q \<in> set qs. (0::real) \<le> q \<and> q \<le> 1" "0 \<in> set qs" "1 \<in> set qs"
  shows "Min (set qs) = 0" "Max (set qs) = 1"
  using assms by (auto intro!: Min_eqI Max_eqI)


lemma np_min_unit:
  assumes "\<forall>q \<in> set qs. (0::real) \<le> q \<and> q \<le> 1" "0 \<in> set qs" "1 \<in> set qs"
  shows "np_min (map Fin qs) = Inr (Fin 0)" "np_max (map Fin qs) = Inr (Fin 1)"
proof -
  have "qs \<noteq> []" using assms(2) by auto
  then show "np_min (map Fin qs) = Inr (Fin 0)" "np_max (map Fin qs) = Inr (Fin 1)"
    using unit_range_min_max[OF assms] by (simp_all add: np_min_Fin np_max_Fin)
qed


lemma store_cast_unit:
  "is_floating dt \<Longrightarrow> 0 \<le> q \<Longrightarrow> q \<le> 1 \<Longrightarrow> store_cast c dt (Fin q) = Fin q"
  using float_max_ge_1[of dt] by (cases dt) (simp_all add: is_floating_def overflow_Fin)

lemma normalize_out_row:
  assumes "normalize_arr c s arr = Inr (out, s')" and "arr < next_addr s"
    and "r < length (rows (cell s arr))"
  shows "\<exists>y. normalize_row (dtype (cell s arr)) (rows (cell s arr) ! r) = Inr y \<and>
     rows (cell s' out) ! r = map (store_cast c (dtype (cell s arr))) y \<and>
     dtype (cell s' out) = dtype (cell s arr) \<and>
     length (rows (cell s' out)) = length (rows (cell s arr))"
proof -
  from assms(1,2) obtain outs where
    c: "collect (map (normalize_row (dtype (cell s arr))) (rows (cell s arr))) = Inr outs" and
    o: "cell s' out = \<lparr>dtype = dtype (cell s arr),
             rows = map (map (store_cast c (dtype (cell s arr)))) outs\<rparr>"
    by (auto simp: normalize_eq split: sum.splits)
  from collect_nth[OF c] assms(3) have
    "length outs = length (rows (cell s arr))"
    "normalize_row (dtype (cell s arr)) (rows (cell s arr) ! r) = Inr (outs ! r)"
    by simp_all
  then show ?thesis using o assms(3) by simp
qed

section \<open>Properties of the tensor operations and of \<open>PositionalEncoding\<close>\<close>

lemma set_strided_length [simp]: "length (set_strided idxs vals row) = length row"
proof -
  have "length (fold (\<lambda>(j, v) r. r[j := v]) ps row) = length row" for ps :: "(nat \<times> real) list"
    by (induction ps arbitrary: row) auto
  then show ?thesis by (simp add: set_strided_def)
qed

lemma set_strided_other:
  "k \<notin> set idxs \<Longrightarrow> set_strided idxs vals row ! k = row ! k"
  unfolding set_strided_def
proof (induction idxs arbitrary: vals row)
  case Nil
  then show ?case by simp
next
  case (Cons j idxs)
  then show ?case by (cases vals) auto
qed

lemma set_strided_hit:
  "distinct idxs \<Longrightarrow> length vals = length idxs \<Longrightarrow> i < length idxs \<Longrightarrow> idxs ! i < length row \<Longrightarrow>
   set_strided idxs vals row ! (idxs ! i) = vals ! i"
proof (induction idxs arbitrary: vals row i)
  case Nil
  then show ?case by simp
next
  case (Cons j idxs)
  then obtain v vs where vals: "vals = v # vs" by (cases vals) auto
  have unf: "set_strided (j # idxs) vals row = set_strided idxs vs (row[j := v])"
    by (simp add: set_strided_def vals)
  show ?case
  proof (cases i)
    case 0
    have "set_strided idxs vs (row[j := v]) ! j = (row[j := v]) ! j"
      using Cons.prems by (intro set_strided_other) simp
    then show ?thesis using Cons.prems 0 unfolding unf by (simp add: vals)
  next
    case (Suc i')
    then show ?thesis using Cons.prems Cons.IH[of vs i' "row[j := v]"] unfolding unf by (simp add: vals)
  qed
qed

lemma slice_cols_distinct: "distinct (slice_cols start d)"
  by (simp add: slice_cols_def distinct_map inj_on_def)

lemma slice_cols_nth: "i < length (slice_cols start d) \<Longrightarrow> slice_cols start d ! i = start + 2 * i"
  by (simp add: slice_cols_def)

lemma slice_cols_length: "length (slice_cols start d) = (d + 1 - start) div 2"
  by (simp add: slice_cols_def)

lemma odd_notin_slice0: "2 * i + 1 \<notin> set (slice_cols 0 d)"
  by (auto simp: slice_cols_def) presburger

lemma even_notin_slice1: "2 * i \<notin> set (slice_cols 1 d)"
  by (auto simp: slice_cols_def) presburger

lemma div_term_powr:
  "exp (real (2 * i) * - (ln 10000 / real_of_int d)) = 10000 powr (- real (2 * i) / real_of_int d)"
  by (simp add: powr_def)


lemma strided_row:
  assumes "length a = n div 2" "even n"
  shows "set_strided (slice_cols 1 n) (map cos a)
           (set_strided (slice_cols 0 n) (map sin a) (replicate n 0)) =
         map (\<lambda>j. if even j then sin (a ! (j div 2)) else cos (a ! (j div 2))) [0..<n]"
proof (rule nth_equalityI)
  show "length (set_strided (slice_cols 1 n) (map cos a)
           (set_strided (slice_cols 0 n) (map sin a) (replicate n 0))) =
        length (map (\<lambda>j. if even j then sin (a ! (j div 2)) else cos (a ! (j div 2))) [0..<n])"
    by simp
next
  fix j
  assume "j < length (set_strided (slice_cols 1 n) (map cos a)
           (set_strided (slice_cols 0 n) (map sin a) (replicate n 0)))"
  then have j: "j < n" by simp
  have l0: "length (slice_cols 0 n) = n div 2" and l1: "length (slice_cols 1 n) = n div 2"
    using assms(2) by (auto simp: slice_cols_length elim: evenE)
  let ?r0 = "set_strided (slice_cols 0 n) (map sin a) (replicate n 0)"
  show "set_strided (slice_cols 1 n) (map cos a) ?r0 ! j =
        map (\<lambda>j. if even j then sin (a ! (j div 2)) else cos (a ! (j div 2))) [0..<n] ! j"
  proof (cases "even j")
    case True
    then obtain i where i: "j = 2 * i" by (auto elim: evenE)
    have ilt: "i < n div 2" using j i assms(2) by (auto elim: evenE)
    have "set_strided (slice_cols 1 n) (map cos a) ?r0 ! (2 * i) = ?r0 ! (2 * i)"
      by (rule set_strided_other) (rule even_notin_slice1)
    also have "?r0 ! (slice_cols 0 n ! i) = map sin a ! i"
      using ilt j i by (intro set_strided_hit) (simp_all add: slice_cols_distinct l0 assms(1) slice_cols_nth)
    then have "?r0 ! (2 * i) = sin (a ! i)"
      using ilt by (simp add: slice_cols_nth l0 assms(1))
    finally show ?thesis using j i by simp
  next
    case False
    then obtain i where i: "j = 2 * i + 1" by (auto elim: oddE)
    have ilt: "i < n div 2" using j i assms(2) by (auto elim: evenE)
    have "set_strided (slice_cols 1 n) (map cos a) ?r0 ! (slice_cols 1 n ! i) = map cos a ! i"
      using ilt j i by (intro set_strided_hit) (simp_all add: slice_cols_distinct l1 assms(1) slice_cols_nth del: One_nat_def)
    then have "set_strided (slice_cols 1 n) (map cos a) ?r0 ! (2 * i + 1) = cos (a ! i)"
      using ilt by (simp add: slice_cols_nth l1 assms(1) add.commute del: One_nat_def)
    then show ?thesis using j i by simp
  qed
qed

lemma angle_nth:
  assumes "i < nat ((d + 1) div 2)"
  shows "map (\<lambda>dv. pos * dv) (map (\<lambda>a. exp (a * - (ln 10000 / real_of_int d))) (arange_step2 d)) ! i =
         pos * 10000 powr (- real (2 * i) / real_of_int d)"
  using assms by (simp add: arange_step2_def powr_def)

lemma sinusoid_row_eq:
  assumes "0 < d" "even d"
  shows "set_strided (slice_cols 1 (nat d))
           (map cos (map (\<lambda>dv. real pos * dv) (map (\<lambda>a. exp (a * - (ln 10000 / real_of_int d))) (arange_step2 d))))
           (set_strided (slice_cols 0 (nat d))
              (map sin (map (\<lambda>dv. real pos * dv) (map (\<lambda>a. exp (a * - (ln 10000 / real_of_int d))) (arange_step2 d))))
              (replicate (nat d) 0)) =
         sinusoid_row d pos"
proof -
  let ?a = "map (\<lambda>dv. real pos * dv) (map (\<lambda>a. exp (a * - (ln 10000 / real_of_int d))) (arange_step2 d))"
  have ev: "even (nat d)" using assms by (simp add: even_nat_iff)
  have half: "nat ((d + 1) div 2) = nat d div 2"
    using assms by (auto elim!: evenE simp: nat_mult_distrib)
  have len: "length ?a = nat d div 2" by (simp add: arange_step2_def half)
  have "map (\<lambda>j. if even j then sin (?a ! (j div 2)) else cos (?a ! (j div 2))) [0..<nat d] =
        sinusoid_row d pos"
    unfolding sinusoid_row_def
  proof (rule map_cong[OF refl])
    fix j assume "j \<in> set [0..<nat d]"
    then have j: "j < nat d" by simp
    then have i: "j div 2 < nat ((d + 1) div 2)" using ev half by (auto elim: evenE)
    have a: "?a ! (j div 2) = real pos * 10000 powr (- real (2 * (j div 2)) / real_of_int d)"
      by (rule angle_nth[OF i])
    show "(if even j then sin (?a ! (j div 2)) else cos (?a ! (j div 2))) =
          (if even j then sin (real pos * 10000 powr (- real j / real_of_int d))
           else cos (real pos * 10000 powr (- real (j - 1) / real_of_int d)))"
    proof (cases "even j")
      case True
      then have "2 * (j div 2) = j" by simp
      then show ?thesis using True a by simp
    next
      case False
      then have "2 * (j div 2) = j - 1" by (auto elim: oddE)
      then show ?thesis using False a by simp
    qed
  qed
  then show ?thesis using strided_row[OF len ev] by simp
qed

lemma init_even:
  assumes "0 \<le> p" "p \<le> 1" "0 \<le> ml" "0 < d" "even d"
  shows "PositionalEncoding_init d p ml =
    Inr \<lparr>pe_dropout = p, pe = [sinusoid_table d ml], pe_training = True\<rparr>"
proof -
  have half: "nat ((d + 1) div 2) = nat d div 2"
    using assms by (auto elim!: evenE simp: nat_mult_distrib)
  have ev: "even (nat d)" using assms by (simp add: even_nat_iff)
  have w0: "length (slice_cols 0 (nat d)) = nat d div 2"
    using ev by (auto simp: slice_cols_length elim: evenE)
  have w1: "length (slice_cols 1 (nat d)) = nat d div 2"
    using ev by (auto simp: slice_cols_length elim: evenE)
  let ?dt = "map (\<lambda>a. exp (a * - (ln 10000 / real_of_int d))) (arange_step2 d)"
  have ldt: "length ?dt = nat d div 2" by (simp add: arange_step2_def half)
  let ?ang = "map (\<lambda>pos. map (\<lambda>dv. pos * dv) ?dt) (arange ml)"
  let ?pe0 = "replicate (nat ml) (replicate (nat d) (0::real))"
  let ?pe1 = "map (\<lambda>(row, vals). set_strided (slice_cols 0 (nat d)) vals row) (zip ?pe0 (map (map sin) ?ang))"
  let ?pe2 = "map (\<lambda>(row, vals). set_strided (slice_cols 1 (nat d)) vals row) (zip ?pe1 (map (map cos) ?ang))"
  have s0: "setitem_cols 0 (nat d) (length ?dt) ?pe0 (map (map sin) ?ang) = Inr ?pe1"
    by (simp only: setitem_cols_def Let_def w0 ldt simp_thms if_True)
  have s1: "setitem_cols 1 (nat d) (length ?dt) ?pe1 (map (map cos) ?ang) = Inr ?pe2"
    by (simp only: setitem_cols_def Let_def w1 ldt simp_thms if_True)
  have tab: "?pe2 = sinusoid_table d ml"
  proof (rule nth_equalityI)
    show "length ?pe2 = length (sinusoid_table d ml)"
      by (simp add: sinusoid_table_def arange_def)
  next
    fix pos assume "pos < length ?pe2"
    then have pos: "pos < nat ml" by (simp add: arange_def)
    then have "?pe2 ! pos = set_strided (slice_cols 1 (nat d))
           (map cos (map (\<lambda>dv. real pos * dv) ?dt))
           (set_strided (slice_cols 0 (nat d))
              (map sin (map (\<lambda>dv. real pos * dv) ?dt))
              (replicate (nat d) 0))"
      by (simp add: arange_def del: One_nat_def)
    also have "\<dots> = sinusoid_row d pos"
      by (rule sinusoid_row_eq[OF assms(4,5)])
    finally show "?pe2 ! pos = sinusoid_table d ml ! pos"
      using pos by (simp add: sinusoid_table_def)
  qed
  have "PositionalEncoding_init d p ml =
      and_then (setitem_cols 0 (nat d) (length ?dt) ?pe0 (map (map sin) ?ang)) (\<lambda>pe1.
      and_then (setitem_cols 1 (nat d) (length ?dt) pe1 (map (map cos) ?ang)) (\<lambda>pe2.
      Inr \<lparr>pe_dropout = p, pe = [pe2], pe_training = True\<rparr>))"
    using assms by (simp add: PositionalEncoding_init_def Let_def)
  also have "\<dots> = Inr \<lparr>pe_dropout = p, pe = [?pe2], pe_training = True\<rparr>"
    unfolding s0 and_then_Inr s1 ..
  finally show ?thesis unfolding tab .
qed


lemma init_one:
  assumes "0 \<le> p" "p \<le> 1" "0 \<le> ml"
  shows "PositionalEncoding_init 1 p ml =
    Inr \<lparr>pe_dropout = p, pe = [sinusoid_table 1 ml], pe_training = True\<rparr>"
proof -
  have a: "arange_step2 1 = [0]" by (simp add: arange_step2_def)
  have s0: "slice_cols 0 (Suc 0) = [0]" by (simp add: slice_cols_def)
  have s1: "slice_cols (Suc 0) (Suc 0) = []" by (simp add: slice_cols_def)
  show ?thesis
    using assms
    apply (simp add: PositionalEncoding_init_def Let_def a setitem_cols_def s0 s1 set_strided_def)
    apply (rule nth_equalityI)
     apply (simp_all add: sinusoid_table_def sinusoid_row_def arange_def)
    done
qed

lemma init_odd:
  assumes "0 \<le> p" "p \<le> 1" "0 \<le> ml" "1 < d" "odd d"
  shows "PositionalEncoding_init d p ml = Inl RuntimeError"
proof -
  from assms obtain k where k: "d = 2 * k + 1" "0 < k" by (auto elim!: oddE)
  have m: "nat ((d + 1) div 2) = nat k + 1" using k by (simp add: nat_add_distrib)
  have nd: "nat d = 2 * nat k + 1" using k by (simp add: nat_add_distrib nat_mult_distrib)
  have w0: "length (slice_cols 0 (nat d)) = nat k + 1" by (simp add: slice_cols_length nd)
  have w1: "length (slice_cols 1 (nat d)) = nat k" by (simp add: slice_cols_length nd)
  let ?dt = "map (\<lambda>a. exp (a * - (ln 10000 / real_of_int d))) (arange_step2 d)"
  have ldt: "length ?dt = nat k + 1" by (simp add: arange_step2_def m)
  have k1: "nat k + 1 \<noteq> 1" "nat k + 1 \<noteq> nat k" using k by simp_all
  have s0: "\<exists>pe1. setitem_cols 0 (nat d) (length ?dt) pe0 src = Inr pe1" for pe0 src
    by (simp only: setitem_cols_def Let_def w0 ldt simp_thms if_True) blast
  have s1: "setitem_cols 1 (nat d) (length ?dt) pe1 src = Inl RuntimeError" for pe1 src
    by (simp only: setitem_cols_def Let_def w1 ldt k1 simp_thms if_False)
  have "PositionalEncoding_init d p ml =
      and_then (setitem_cols 0 (nat d) (length ?dt) (replicate (nat ml) (replicate (nat d) 0))
         (map (map sin) (map (\<lambda>pos. map (\<lambda>dv. pos * dv) ?dt) (arange ml)))) (\<lambda>pe1.
      and_then (setitem_cols 1 (nat d) (length ?dt) pe1
         (map (map cos) (map (\<lambda>pos. map (\<lambda>dv. pos * dv) ?dt) (arange ml)))) (\<lambda>pe2.
      Inr \<lparr>pe_dropout = p, pe = [pe2], pe_training = True\<rparr>))"
    using assms by (simp add: PositionalEncoding_init_def Let_def)
  also have "\<dots> = Inl RuntimeError"
    using s0[of "replicate (nat ml) (replicate (nat d) 0)"
        "map (map sin) (map (\<lambda>pos. map (\<lambda>dv. pos * dv) ?dt) (arange ml))"]
    unfolding s1 by (auto simp: and_then_def)
  finally show ?thesis .
qed

lemma init_cases:
  "PositionalEncoding_init d p ml =
     (if p < 0 \<or> 1 < p then Inl ValueError
      else if ml < 0 \<or> d < 0 then Inl RuntimeError
      else if d = 0 then Inl ZeroDivisionError
      else if even d \<or> d = 1 then
        Inr \<lparr>pe_dropout = p, pe = [sinusoid_table d ml], pe_training = True\<rparr>
      else Inl RuntimeError)"
proof -
  consider "p < 0 \<or> 1 < p" | "\<not> (p < 0 \<or> 1 < p)" "ml < 0 \<or> d < 0"
    | "\<not> (p < 0 \<or> 1 < p)" "\<not> (ml < 0 \<or> d < 0)" "d = 0"
    | "\<not> (p < 0 \<or> 1 < p)" "\<not> (ml < 0 \<or> d < 0)" "0 < d" "even d"
    | "\<not> (p < 0 \<or> 1 < p)" "\<not> (ml < 0 \<or> d < 0)" "d = 1"
    | "\<not> (p < 0 \<or> 1 < p)" "\<not> (ml < 0 \<or> d < 0)" "1 < d" "odd d"
    by (cases "even d") force+
  then show ?thesis
  proof cases
    case 1 then show ?thesis by (simp add: PositionalEncoding_init_def)
  next
    case 2 then show ?thesis by (simp add: PositionalEncoding_init_def)
  next
    case 3 then show ?thesis by (simp add: PositionalEncoding_init_def Let_def)
  next
    case 4 then show ?thesis using init_even[of p ml d] by simp
  next
    case 5 then show ?thesis using init_one[of p ml] by simp
  next
    case 6 then show ?thesis using init_odd[of p ml d] by simp
  qed
qed

lemma sinusoid_row_zero: "sinusoid_row d 0 = alternating (nat d)"
  by (simp add: sinusoid_row_def alternating_def)


lemma broadcast_single: "broadcast xs [y] = Inr (map (\<lambda>x. (x, y)) xs)"
proof (cases "length xs = 1")
  case True
  then obtain x where "xs = [x]" by (cases xs) auto
  then show ?thesis by (simp add: broadcast_def)
next
  case False
  then show ?thesis by (simp add: broadcast_def)
qed

lemma broadcast_same: "length xs = length ys \<Longrightarrow> broadcast xs ys = Inr (zip xs ys)"
  by (simp add: broadcast_def)

lemma add1_same: "length r = length t \<Longrightarrow> add1 r t = Inr (map2 (+) r t)"
  by (simp add: add1_def broadcast_same)

lemma add2_same:
  assumes "length m = length tt" "\<forall>(r, t) \<in> set (zip m tt). length r = length t"
  shows "add2 m tt = Inr (map2 (map2 (+)) m tt)"
proof -
  have "collect (map (\<lambda>(a, b). add1 a b) (zip m tt)) = Inr (map (\<lambda>(a, b). map2 (+) a b) (zip m tt))"
    using assms(2) by (intro collect_map_Inr) (auto simp: add1_same)
  then show ?thesis by (simp add: add2_def broadcast_same[OF assms(1)])
qed

lemma add3_table:
  assumes "\<forall>m \<in> set x. length m = T \<and> (\<forall>r \<in> set m. length r = n)"
    and "T \<le> length table" and "\<forall>t \<in> set table. length t = n"
  shows "add3 x (map (take (size1 x)) [table]) = Inr (add_table x table)"
proof -
  have sz: "size1 x = T" if "x \<noteq> []"
    using that assms(1) by (cases x) (simp_all add: size1_def)
  have "collect (map (\<lambda>(a, b). add2 a b) (map (\<lambda>m. (m, take (size1 x) table)) x)) =
        Inr (map (\<lambda>(a, b). map2 (map2 (+)) a b) (map (\<lambda>m. (m, take (size1 x) table)) x))"
  proof (rule collect_map_Inr)
    fix q assume q: "q \<in> set (map (\<lambda>m. (m, take (size1 x) table)) x)"
    then obtain m where m: "m \<in> set x" "q = (m, take (size1 x) table)" by auto
    then have ne: "x \<noteq> []" by auto
    have lm: "length m = length (take (size1 x) table)"
      using assms(1,2) m sz[OF ne] by simp
    have "\<forall>(r, t) \<in> set (zip m (take (size1 x) table)). length r = length t"
    proof clarify
      fix r t assume rt: "(r, t) \<in> set (zip m (take (size1 x) table))"
      then have "r \<in> set m" "t \<in> set table"
        by (auto dest: set_zip_leftD set_zip_rightD in_set_takeD)
      then show "length r = length t" using assms(1,3) m by simp
    qed
    from add2_same[OF lm this] show "(case q of (a, b) \<Rightarrow> add2 a b) = Inr (case q of (a, b) \<Rightarrow> map2 (map2 (+)) a b)"
      by (simp add: m)
  qed
  then show ?thesis
    by (simp add: add3_def broadcast_single add_table_def o_def)
qed

lemma shape3_add_table:
  assumes "\<forall>m \<in> set x. length m = T \<and> (\<forall>r \<in> set m. length r = n)"
    and "T \<le> length table" and "\<forall>t \<in> set table. length t = n"
  shows "shape3 (add_table x table) = shape3 x"
proof -
  have sz: "size1 x = T" if "x \<noteq> []"
    using that assms(1) by (cases x) (simp_all add: size1_def)
  have "map length (map2 (map2 (+)) m (take (size1 x) table)) = map length m" if "m \<in> set x" for m
  proof (rule nth_equalityI)
    have ne: "x \<noteq> []" using that by auto
    show l: "length (map length (map2 (map2 (+)) m (take (size1 x) table))) = length (map length m)"
      using assms(1,2) that sz[OF ne] by simp
    fix i assume "i < length (map length (map2 (map2 (+)) m (take (size1 x) table)))"
    then have i: "i < length m" "i < T" using l assms(1) that by simp_all
    then have "m ! i \<in> set m" "table ! i \<in> set table"
      using assms(2) by simp_all
    then have "length (m ! i) = n" "length (table ! i) = n"
      using assms(1,3) that by simp_all
    then show "map length (map2 (map2 (+)) m (take (size1 x) table)) ! i = map length m ! i"
      using i assms(1,2) that sz[OF ne] by simp
  qed
  then show ?thesis by (simp add: shape3_def add_table_def)
qed

lemma map_st_length: "length (fst (map_st f xs g)) = length xs"
  by (induction xs arbitrary: g) (simp_all add: split_def Let_def)

lemma map_st_shape2: "map length (fst (map_st (map_st f) xss g)) = map length xss"
  by (induction xss arbitrary: g) (simp_all add: split_def Let_def map_st_length)

lemma map_st_shape3: "shape3 (fst (map_st (map_st (map_st f)) x g)) = shape3 x"
  unfolding shape3_def
  by (induction x arbitrary: g) (simp_all add: split_def Let_def map_st_shape2)

lemma F_dropout_valid:
  assumes "0 \<le> p" "p \<le> 1"
  shows "\<exists>y g'. F_dropout bern x p tr g = Inr (y, g') \<and> shape3 y = shape3 x"
proof -
  have "\<exists>y g'. map_st (map_st (map_st (drop_elem bern p))) x g = (y, g') \<and> shape3 y = shape3 x"
    using map_st_shape3[of "drop_elem bern p" x g]
    by (cases "map_st (map_st (map_st (drop_elem bern p))) x g") simp
  moreover have "shape3 (map (map (map (\<lambda>_. 0::real))) x) = shape3 x"
    by (simp add: shape3_def o_def)
  ultimately show ?thesis using assms by (auto simp: F_dropout_def)
qed

lemma F_dropout_inactive:
  "\<not> tr \<or> p = 0 \<Longrightarrow> F_dropout bern x p tr g = (if p < 0 \<or> 1 < p then Inl ValueError else Inr (x, g))"
  by (auto simp: F_dropout_def)

lemma sinusoid_table_shape:
  "length (sinusoid_table d ml) = nat ml" "\<forall>t \<in> set (sinusoid_table d ml). length t = nat d"
  by (auto simp: sinusoid_table_def sinusoid_row_def)

lemma forward_shaped:
  assumes "PositionalEncoding_init d_model p max_len = Inr self"
    and "\<forall>m \<in> set x. length m = T \<and> (\<forall>r \<in> set m. length r = nat d_model)"
    and "T \<le> nat max_len"
  shows "PositionalEncoding_forward bern (self\<lparr>pe_training := tr\<rparr>) x g =
           F_dropout bern (add_table x (sinusoid_table d_model max_len)) p tr g"
    and "0 \<le> p \<and> p \<le> 1"
proof -
  from assms(1) have self: "self = \<lparr>pe_dropout = p, pe = [sinusoid_table d_model max_len], pe_training = True\<rparr>"
    and p: "0 \<le> p \<and> p \<le> 1"
    by (auto simp: init_cases split: if_splits)
  show "0 \<le> p \<and> p \<le> 1" by (rule p)
  have "add3 x (map (take (size1 x)) [sinusoid_table d_model max_len]) =
        Inr (add_table x (sinusoid_table d_model max_len))"
    using assms(2,3) by (intro add3_table[where T=T and n="nat d_model"]) (simp_all add: sinusoid_table_shape)
  then show "PositionalEncoding_forward bern (self\<lparr>pe_training := tr\<rparr>) x g =
           F_dropout bern (add_table x (sinusoid_table d_model max_len)) p tr g"
    by (simp add: PositionalEncoding_forward_def self)
qed

section \<open>Properties of \<open>TransformerEncoder\<close>\<close>

lemma make_layers_length: "make_layers fw a n g = Inr (ls, g') \<Longrightarrow> length ls = n"
  by (induction n arbitrary: g ls) (auto split: sum.splits prod.splits)

lemma ctor_state_shift:
  "TransformerEncoderLayer fw a g = Inr (l, g1) \<Longrightarrow> ctor_state fw a g (Suc j) = ctor_state fw a g1 j"
proof (induction j)
  case 0
  then show ?case by simp
next
  case (Suc j)
  show ?case
    unfolding ctor_state.simps(2)[of fw a g "Suc j"] Suc.IH[OF Suc.prems]
      ctor_state.simps(2)[of fw a g1 j] ..
qed

lemma make_layers_nth:
  "make_layers fw a n g = Inr (ls, g') \<Longrightarrow> i < n \<Longrightarrow>
   \<exists>gi. TransformerEncoderLayer fw a (ctor_state fw a g i) = Inr (ls ! i, gi)"
proof (induction n arbitrary: g ls i)
  case 0
  then show ?case by simp
next
  case (Suc n)
  from Suc.prems(1) obtain l g1 ls' where
    c: "TransformerEncoderLayer fw a g = Inr (l, g1)" and
    r: "make_layers fw a n g1 = Inr (ls', g')" and ls: "ls = l # ls'"
    by (auto split: sum.splits prod.splits)
  show ?case
  proof (cases i)
    case 0
    then show ?thesis using c ls by simp
  next
    case (Suc j)
    then have "j < n" using Suc.prems(2) by simp
    from Suc.IH[OF r this] obtain gi where
      "TransformerEncoderLayer fw a (ctor_state fw a g1 j) = Inr (ls' ! j, gi)" by blast
    then show ?thesis
      unfolding Suc ctor_state_shift[OF c] by (simp add: ls)
  qed
qed

lemma run_layers_snoc:
  "run_layers (ls @ [l]) tr m x g =
     and_then (run_layers ls tr m x g) (\<lambda>(y, g'). l tr (y, m) g')"
  by (induction ls arbitrary: x g) (auto simp: and_then_def split: sum.splits prod.splits)

lemma layers_in_order_take:
  "n \<le> length ls \<Longrightarrow> layers_in_order n ls tr m x g = run_layers (take n ls) tr m x g"
  by (induction n) (simp_all add: take_Suc_conv_app_nth run_layers_snoc)

lemma layers_in_order_all:
  "layers_in_order (length ls) ls tr m x g = run_layers ls tr m x g"
  by (simp add: layers_in_order_take)

lemma init_fields:
  assumes "TransformerEncoder_init fw a et left_pad g0 = Inr (self, g1)"
  shows "0 \<le> embedding_dim et"
    and "dropout self = args_dropout a"
    and "self_padding_idx self = padding_idx et"
    and "embed_tokens self = et"
    and "embed_scale self = sqrt (real_of_int (embedding_dim et))"
    and "self_normalize self = args_encoder_normalize_before a"
    and "embed_positions self = None \<longleftrightarrow> args_no_token_positional_embeddings a"
    and "layer_norm self = None \<longleftrightarrow> \<not> args_encoder_normalize_before a"
    and "training self = True"
    and "\<exists>gL gL'. make_layers fw a (nat (args_encoder_layers a)) gL = Inr (layers self, gL')"
  using assms
  by (auto simp: TransformerEncoder_init_def Let_def and_then_def
           split: if_splits sum.splits prod.splits) blast+

lemma with_state_simps [simp]:
  "with_state g' (Inl e) = Inl e" "with_state g' (Inr (y, g)) = Inr (y, g')"
  by (simp_all add: with_state_def)

lemma and_then_state:
  assumes "m' = with_state g' m"
    and "\<And>y g1. m = Inr (y, g1) \<Longrightarrow> f' (y, g') = with_state g' (f (y, g1))"
  shows "and_then m' f' = with_state g' (and_then m f)"
proof (cases m)
  case (Inl e)
  then show ?thesis using assms(1) by simp
next
  case (Inr r)
  obtain y g1 where r: "r = (y, g1)" by (cases r)
  show ?thesis using assms(1) assms(2)[of y g1] Inr r by simp
qed

lemma and_then_pure:
  assumes "\<And>y. m = Inr y \<Longrightarrow> f' y = with_state g' (f y)"
  shows "and_then m f' = with_state (g'::'g) (and_then m f)"
  using assms by (cases m) simp_all

lemma rng_freeD:
  "rng_free tr m \<Longrightarrow> m tr i g' = with_state g' (m tr i g)"
  by (simp add: rng_free_def)

lemma run_layers_state:
  assumes "\<forall>l \<in> set ls. rng_free tr l"
  shows "run_layers ls tr m x g' = with_state g' (run_layers ls tr m x g)"
  using assms
proof (induction ls arbitrary: x g)
  case Nil
  then show ?case by simp
next
  case (Cons l ls)
  have l: "l tr (x, m) g' = with_state g' (l tr (x, m) g)"
    using Cons.prems by (intro rng_freeD) simp
  show ?case
  proof (cases "l tr (x, m) g")
    case (Inl e)
    then show ?thesis using l by simp
  next
    case (Inr r)
    obtain y g1 where r: "r = (y, g1)" by (cases r)
    have "run_layers ls tr m y g' = with_state g' (run_layers ls tr m y g1)"
      using Cons.prems by (intro Cons.IH) simp
    then show ?thesis using l Inr r by simp
  qed
qed

lemma F_dropout_state:
  assumes "\<not> tr \<or> p = 0"
  shows "F_dropout bern' x p tr g' = with_state g' (F_dropout bern x p tr g)"
  using assms by (auto simp: F_dropout_def)

lemma forward_embed_state:
  assumes "rng_free (training self) (lookup (embed_tokens self))"
  shows "forward_embed self src g' = with_state g' (forward_embed self src g)"
  unfolding forward_embed_def
  by (rule and_then_state) (simp_all add: rng_freeD[OF assms, of src g' g])

lemma forward_positions_state:
  assumes "\<forall>ep. embed_positions self = Some ep \<longrightarrow> rng_free (training self) ep"
  shows "forward_positions self src x g' =
         with_state g' (forward_positions self src x g)"
proof (cases "embed_positions self")
  case None
  then show ?thesis by (simp add: forward_positions_def)
next
  case (Some ep)
  then have ep: "rng_free (training self) ep" using assms by simp
  have "and_then (ep (training self) src g') (\<lambda>(pos, g1). and_then (iadd3 x pos) (\<lambda>x'. Inr (x', g1))) =
        with_state g'
          (and_then (ep (training self) src g) (\<lambda>(pos, g1). and_then (iadd3 x pos) (\<lambda>x'. Inr (x', g1))))"
  proof (rule and_then_state)
    show "ep (training self) src g' = with_state g' (ep (training self) src g)"
      by (rule rng_freeD[OF ep])
  next
    fix y g1
    show "(case (y, g') of (pos, g1) \<Rightarrow> and_then (iadd3 x pos) (\<lambda>x'. Inr (x', g1))) =
          with_state g'
            (case (y, g1) of (pos, g1) \<Rightarrow> and_then (iadd3 x pos) (\<lambda>x'. Inr (x', g1)))"
      by (cases "iadd3 x y") simp_all
  qed
  then show ?thesis by (simp add: forward_positions_def Some)
qed

lemma forward_rest_state:
  assumes "\<not> training self \<or> dropout self = 0"
    and "\<forall>ep. embed_positions self = Some ep \<longrightarrow> rng_free (training self) ep"
    and "\<forall>l \<in> set (layers self). rng_free (training self) l"
    and "\<forall>nl. layer_norm self = Some nl \<longrightarrow> rng_free (training self) nl"
  shows "forward_rest bern' self src x g' =
         with_state g' (forward_rest bern self src x g)"
  unfolding forward_rest_def
proof (rule and_then_state, rule forward_positions_state[OF assms(2)], simp only: prod.case,
       rule and_then_state, rule F_dropout_state[OF assms(1)], simp only: prod.case Let_def,
       rule and_then_pure, rule and_then_state, rule run_layers_state[OF assms(3)],
       simp only: prod.case, rule and_then_state)
  fix x4 g3
  show "(if self_normalize self
         then case layer_norm self of None \<Rightarrow> Inl AttributeError
              | Some norm_layer \<Rightarrow> norm_layer (training self) x4 g'
         else Inr (x4, g')) =
        with_state g'
         (if self_normalize self
          then case layer_norm self of None \<Rightarrow> Inl AttributeError
               | Some norm_layer \<Rightarrow> norm_layer (training self) x4 g3
          else Inr (x4, g3))"
    using assms(4) by (auto split: option.splits intro: rng_freeD)
qed simp

lemma shape3_scale3: "shape3 (scale3 c e) = shape3 e"
  by (simp add: shape3_def scale3_def o_def)

lemma scale3_nth:
  "b < length e \<Longrightarrow> t < length (e ! b) \<Longrightarrow> k < length (e ! b ! t) \<Longrightarrow>
   scale3 c e ! b ! t ! k = c * e ! b ! t ! k"
  by (simp add: scale3_def)

lemma shape3_eqD:
  assumes "shape3 p = shape3 x"
  shows "length p = length x"
    and "\<And>i. i < length x \<Longrightarrow> length (p ! i) = length (x ! i)"
    and "\<And>i j. i < length x \<Longrightarrow> j < length (x ! i) \<Longrightarrow> length (p ! i ! j) = length (x ! i ! j)"
proof -
  have sh: "map (map length) p = map (map length) x" using assms by (simp add: shape3_def)
  show l: "length p = length x"
    using map_eq_imp_length_eq[OF sh] .
  have m: "map length (p ! i) = map length (x ! i)" if "i < length x" for i
  proof -
    have "map (map length) p ! i = map (map length) x ! i" using sh by simp
    then show ?thesis using that l by simp
  qed
  show l2: "length (p ! i) = length (x ! i)" if "i < length x" for i
    using map_eq_imp_length_eq[OF m[OF that]] .
  show "length (p ! i ! j) = length (x ! i ! j)" if "i < length x" "j < length (x ! i)" for i j
  proof -
    have "map length (p ! i) ! j = map length (x ! i) ! j" using m[OF that(1)] by simp
    then show ?thesis using that l2[OF that(1)] by simp
  qed
qed

lemma add3_same_shape:
  assumes "shape3 p = shape3 x"
  shows "add3 x p = Inr (map2 (map2 (map2 (+))) x p)"
proof -
  note d = shape3_eqD[OF assms]
  have "collect (map (\<lambda>(a, b). add2 a b) (zip x p)) =
        Inr (map (\<lambda>(a, b). map2 (map2 (+)) a b) (zip x p))"
  proof (rule collect_map_Inr)
    fix q assume "q \<in> set (zip x p)"
    then obtain i where i: "i < length x" "q = (x ! i, p ! i)"
      using d(1) by (auto simp: set_zip)
    have lm: "length (x ! i) = length (p ! i)" using d(2)[OF i(1)] by simp
    have "\<forall>(r, t) \<in> set (zip (x ! i) (p ! i)). length r = length t"
    proof clarify
      fix r t assume "(r, t) \<in> set (zip (x ! i) (p ! i))"
      then obtain j where "j < length (x ! i)" "r = x ! i ! j" "t = p ! i ! j"
        using lm by (auto simp: set_zip)
      then show "length r = length t" using d(3)[OF i(1), of j] by simp
    qed
    from add2_same[OF lm this]
    show "(case q of (a, b) \<Rightarrow> add2 a b) = Inr (case q of (a, b) \<Rightarrow> map2 (map2 (+)) a b)"
      by (simp add: i)
  qed
  then show ?thesis using d(1) by (simp add: add3_def broadcast_same)
qed

lemma shape3_sum:
  assumes "shape3 p = shape3 x"
  shows "shape3 (map2 (map2 (map2 (+))) x p) = shape3 x"
proof -
  note d = shape3_eqD[OF assms]
  have "map length (map2 (map2 (+)) (x ! i) (p ! i)) = map length (x ! i)" if "i < length x" for i
  proof (rule nth_equalityI)
    show "length (map length (map2 (map2 (+)) (x ! i) (p ! i))) = length (map length (x ! i))"
      using d(2)[OF that] by simp
    fix j assume "j < length (map length (map2 (map2 (+)) (x ! i) (p ! i)))"
    then have j: "j < length (x ! i)" using d(2)[OF that] by simp
    then show "map length (map2 (map2 (+)) (x ! i) (p ! i)) ! j = map length (x ! i) ! j"
      using d(2)[OF that] d(3)[OF that j] by simp
  qed
  then show ?thesis
    unfolding shape3_def using d(1)
    by (intro nth_equalityI) simp_all
qed

lemma iadd3_same_shape:
  "shape3 p = shape3 x \<Longrightarrow> iadd3 x p = Inr (map2 (map2 (map2 (+))) x p)"
  by (simp add: iadd3_def add3_same_shape shape3_sum)

section \<open>The examples, run\<close>

lemmas norm_eval = normalize_arr_def zeros_like_def demo_store_def demo_result_def Let_def upt_rec
  normalize_row_def setitem_row_def subtract_def subtract_scalar_def overflow_def
  wrap_signed_def wrap_unsigned_def trunc_zero_def

lemma demo_float: "normalize_arr c (demo_store Float32 demo_matrix) 0 =
   Inr (1, demo_result Float32 demo_matrix [[Fin 0, Fin (1/4), Fin 1], [Fin 1, Fin 0, Fin (1/2)]])"
  by (simp add: norm_eval demo_matrix_def)

lemma demo_int: "normalize_arr c (demo_store (SInt 64) demo_matrix) 0 =
   Inr (1, demo_result (SInt 64) demo_matrix [[Fin 0, Fin 0, Fin 1], [Fin 1, Fin 0, Fin 0]])"
  by (simp add: norm_eval demo_matrix_def)

lemma demo_wide: "normalize_arr c (demo_store Float32 wide_matrix) 0 =
   Inr (1, demo_result Float32 wide_matrix [[Fin 0, Fin 0, NaN]])"
  by (simp add: norm_eval wide_matrix_def)

lemma demo_wide_again:
  "normalize_arr c (demo_result Float32 wide_matrix [[Fin 0, Fin 0, NaN]]) 1 =
   Inr (2, demo_second Float32 wide_matrix [[Fin 0, Fin 0, NaN]] [[NaN, NaN, NaN]])"
  by (simp add: norm_eval demo_second_def)

lemma demo_bool: "normalize_arr c (demo_store Boolean bool_matrix) 0 = Inl TypeError"
  by (simp add: norm_eval bool_matrix_def)

text \<open>
  Two's complement at work: in the \<open>int64\<close> row \<open>[0, -2\<^bsup>63\<^esup>, 1]\<close> the differences wrap
  around, and the result is \<open>[1, 0, 1]\<close>.
\<close>

lemma demo_int_wrap:
  "normalize_arr c (demo_store (SInt 64) [[Fin 0, Fin (- (2 ^ 63)), Fin 1]]) 0 =
   Inr (1, demo_result (SInt 64) [[Fin 0, Fin (- (2 ^ 63)), Fin 1]] [[Fin 1, Fin 0, Fin 1]])"
  by (simp add: norm_eval)

lemma demo_init: "TransformerEncoder_init demo_fw demo_args demo_embed True 0 = Inr (demo_encoder, 4)"
  by (simp add: TransformerEncoder_init_def demo_fw_def demo_args_def demo_embed_def demo_encoder_def
      Let_def and_then_def numeral_2_eq_2 numeral_3_eq_3 eval_nat_numeral)

lemma demo_forward:
  "TransformerEncoder_forward keep_all demo_encoder [[1, 7]] [2] 0 =
     Inr (([[[16, 10, 4, 10]], [[88, 10, 4, 10]]], [[True, False]]), 0)"
  by (simp add: TransformerEncoder_forward_def forward_embed_def forward_rest_def forward_positions_def
      demo_encoder_def demo_embed_def demo_lookup_def demo_positional_def demo_layer_def demo_norm_def
      and_then_def scale3_def iadd3_def add3_def add2_def add1_def broadcast_def shape3_def
      F_dropout_def eq_mask_def layer_mask_def any_true_def Let_def)

lemma demo_pe_init: "even d \<Longrightarrow> 0 < d \<Longrightarrow> PositionalEncoding_init d 0 3 = Inr (demo_pe d)"
  by (simp add: init_even demo_pe_def)

lemma sinusoid_table_first: "take (Suc 0) (sinusoid_table 2 3) = [[0, 1]]"
  by (simp add: sinusoid_table_def sinusoid_row_def upt_rec take_Suc_conv_app_nth)

lemma demo_pe_broadcast:
  "PositionalEncoding_forward keep_all (demo_pe 2) [[[5]]] 0 = Inr ([[[5, 6]]], 0)"
  by (simp add: PositionalEncoding_forward_def demo_pe_def size1_def sinusoid_table_first
      sinusoid_table_shape(1) add3_def add2_def add1_def broadcast_def and_then_def F_dropout_def)

lemma demo_pe_mismatch:
  "PositionalEncoding_forward keep_all (demo_pe 2) [[[1, 2, 3]]] 0 = Inl RuntimeError"
  by (simp add: PositionalEncoding_forward_def demo_pe_def size1_def sinusoid_table_first
      sinusoid_table_shape(1) add3_def add2_def add1_def broadcast_def and_then_def F_dropout_def)

lemma demo_modules_rng_free:
  "rng_free tr demo_lookup" "rng_free tr demo_positional" "rng_free tr (demo_layer k)"
  "rng_free tr demo_norm"
  by (simp_all add: rng_free_def demo_lookup_def demo_positional_def demo_layer_def demo_norm_def)

lemmas forward_eval = TransformerEncoder_forward_def forward_embed_def forward_rest_def
  forward_positions_def demo_encoder_def demo_embed_def demo_lookup_def demo_positional_def
  demo_layer_def demo_norm_def and_then_def scale3_def iadd3_def add3_def add2_def add1_def
  broadcast_def shape3_def F_dropout_def eq_mask_def layer_mask_def any_true_def Let_def

lemma noisy_first:
  "TransformerEncoder_forward keep_all noisy_encoder [[1, 7]] [2] 0 =
     Inr (([[[2, 1, 0, 1]], [[14, 1, 0, 1]]], [[True, False]]), 1)"
  by (simp add: forward_eval noisy_encoder_def noisy_layer_def)

lemma noisy_second:
  "TransformerEncoder_forward keep_all noisy_encoder [[1, 7]] [2] 1 =
     Inr (([[[4, 2, 0, 2]], [[28, 2, 0, 2]]], [[True, False]]), 2)"
  by (simp add: forward_eval noisy_encoder_def noisy_layer_def)

lemma minmax_idem:
  assumes "vs \<noteq> []" "Min (set vs) < Max (set vs)"
  shows "minmax (minmax vs) = minmax vs"
proof -
  note b = minmax_bounds[OF assms]
  have "Min (set (minmax vs)) = 0" "Max (set (minmax vs)) = 1"
    using unit_range_min_max[OF b] by simp_all
  then have "minmax (minmax vs) = map (\<lambda>q. (q - 0) / (1 - 0)) (minmax vs)"
    by (simp add: minmax_def[of "minmax vs"])
  then show ?thesis by simp
qed

lemma stored_rows:
  assumes "is_floating dt"
    and "\<forall>vs \<in> set a. vs \<noteq> [] \<and> Min (set vs) < Max (set vs) \<and>
           Max (set vs) - Min (set vs) \<le> float_max dt"
  shows "collect (map (normalize_row dt) (map (map Fin) a)) = Inr (map (map Fin) (map minmax a))"
proof -
  have "collect (map (normalize_row dt \<circ> map Fin) a) = Inr (map (map Fin \<circ> minmax) a)"
    using assms by (intro collect_map_Inr) (simp add: normalize_row_minmax)
  then show ?thesis by (simp add: o_def)
qed

lemma store_cast_rows:
  assumes "is_floating dt"
    and "\<forall>vs \<in> set a. vs \<noteq> [] \<and> Min (set vs) < Max (set vs)"
  shows "map (map (store_cast c dt)) (map (map Fin) (map minmax a)) =
         map (map Fin) (map minmax a)"
proof -
  have "map (store_cast c dt) (map Fin (minmax vs)) = map Fin (minmax vs)" if "vs \<in> set a" for vs
  proof -
    have h: "vs \<noteq> []" "Min (set vs) < Max (set vs)" using that assms(2) by simp_all
    have "store_cast c dt (Fin q) = Fin q" if "q \<in> set (minmax vs)" for q
      using minmax_bounds(1)[OF h] that assms(1) by (simp add: store_cast_unit)
    then show ?thesis by simp
  qed
  then show ?thesis by simp
qed

lemma normalize_arr_finite:
  assumes "arr < next_addr s" and "is_floating (dtype (cell s arr))"
    and "rows (cell s arr) = map (map Fin) a"
    and "\<forall>vs \<in> set a. vs \<noteq> [] \<and> Min (set vs) < Max (set vs) \<and>
           Max (set vs) - Min (set vs) \<le> float_max (dtype (cell s arr))"
  shows "normalize_arr c s arr =
     Inr (next_addr s,
       s\<lparr>next_addr := Suc (next_addr s),
         cell := (cell s)(next_addr s := \<lparr>dtype = dtype (cell s arr),
           rows = map (map Fin) (map minmax a)\<rparr>)\<rparr>)"
proof -
  have w: "\<forall>vs \<in> set a. vs \<noteq> [] \<and> Min (set vs) < Max (set vs)" using assms(4) by blast
  show ?thesis
    unfolding normalize_eq[OF assms(1)] assms(3) stored_rows[OF assms(2,4)]
    by (simp only: sum.case store_cast_rows[OF assms(2) w])
qed

section \<open>The claims\<close>



text \<open>
  Claim C2. \<open>TransformerEncoder.forward\<close> first scales the token embeddings by the square
  root of the embedding dimension. For an encoder built by the constructor (in either
  training mode) \<open>embed_scale\<close> is \<open>\<surd>embedding_dim\<close>; whenever \<open>embed_tokens(src_tokens)\<close>
  returns a tensor \<open>e\<close>, \<open>forward\<close> is the rest of its body, which begins with the addition
  of the positional embeddings, run on a tensor \<open>x\<close> of the shape of \<open>e\<close> whose every entry
  is \<open>\<surd>embedding_dim\<close> times the entry of \<open>e\<close> at the same index; and when \<open>embed_tokens\<close>
  raises, so does \<open>forward\<close>.
\<close>

theorem forward_scales_embedding:
  assumes "TransformerEncoder_init fw a et left_pad g0 = Inr (self, g1)"
  shows "embed_scale self = sqrt (real_of_int (embedding_dim et)) \<and>
    (\<forall>e g'. lookup et tr src_tokens g = Inr (e, g') \<longrightarrow>
       (\<exists>x. TransformerEncoder_forward bern (self\<lparr>training := tr\<rparr>) src_tokens src_lengths g =
               forward_rest bern (self\<lparr>training := tr\<rparr>) src_tokens x g' \<and>
            shape3 x = shape3 e \<and>
            (\<forall>b < length e. \<forall>t < length (e ! b). \<forall>k < length (e ! b ! t).
               x ! b ! t ! k = sqrt (real_of_int (embedding_dim et)) * e ! b ! t ! k))) \<and>
    (\<forall>err. lookup et tr src_tokens g = Inl err \<longrightarrow>
       TransformerEncoder_forward bern (self\<lparr>training := tr\<rparr>) src_tokens src_lengths g = Inl err)"
proof (intro conjI allI impI)
  note f = init_fields(4,5)[OF assms]
  show "embed_scale self = sqrt (real_of_int (embedding_dim et))" by (rule f(2))
  fix e g' assume l: "lookup et tr src_tokens g = Inr (e, g')"
  let ?x = "scale3 (sqrt (real_of_int (embedding_dim et))) e"
  have "TransformerEncoder_forward bern (self\<lparr>training := tr\<rparr>) src_tokens src_lengths g =
          forward_rest bern (self\<lparr>training := tr\<rparr>) src_tokens ?x g'"
    using f l by (simp add: TransformerEncoder_forward_def forward_embed_def)
  moreover have "shape3 ?x = shape3 e" by (rule shape3_scale3)
  moreover have "\<forall>b < length e. \<forall>t < length (e ! b). \<forall>k < length (e ! b ! t).
       ?x ! b ! t ! k = sqrt (real_of_int (embedding_dim et)) * e ! b ! t ! k"
    by (simp add: scale3_nth)
  ultimately show "\<exists>x. TransformerEncoder_forward bern (self\<lparr>training := tr\<rparr>) src_tokens src_lengths g =
               forward_rest bern (self\<lparr>training := tr\<rparr>) src_tokens x g' \<and>
            shape3 x = shape3 e \<and>
            (\<forall>b < length e. \<forall>t < length (e ! b). \<forall>k < length (e ! b ! t).
               x ! b ! t ! k = sqrt (real_of_int (embedding_dim et)) * e ! b ! t ! k)"
    by blast
next
  note f = init_fields(4,5)[OF assms]
  fix err assume "lookup et tr src_tokens g = Inl err"
  then show "TransformerEncoder_forward bern (self\<lparr>training := tr\<rparr>) src_tokens src_lengths g = Inl err"
    using f by (simp add: TransformerEncoder_forward_def forward_embed_def)
qed

theorem forward_scales_embedding_witness:
  "TransformerEncoder_init demo_fw demo_args demo_embed True 0 = Inr (demo_encoder, 4) \<and>
   lookup demo_embed True [[1, 7]] 0 = Inr ([[[1, 0, 0, 0], [7, 0, 0, 0]]], 0) \<and>
   (\<exists>x. TransformerEncoder_forward keep_all demo_encoder [[1, 7]] [2] 0 =
           forward_rest keep_all demo_encoder [[1, 7]] x 0 \<and>
        shape3 x = shape3 [[[1, 0, 0, 0], [7, 0, 0, 0 :: real]]] \<and>
        x ! 0 ! 1 ! 0 = sqrt 4 * 7)"
proof -
  have e: "demo_encoder\<lparr>training := True\<rparr> = demo_encoder" by (simp add: demo_encoder_def)
  have l: "lookup demo_embed True [[1, 7]] 0 = Inr ([[[1, 0, 0, 0], [7, 0, 0, 0]]], 0)"
    by (simp add: demo_embed_def demo_lookup_def)
  note t = forward_scales_embedding[OF demo_init, of True "[[1, 7]]" 0 keep_all "[2]", unfolded e]
  from t[THEN conjunct2, THEN conjunct1, rule_format, OF l] obtain x where
    x: "TransformerEncoder_forward keep_all demo_encoder [[1, 7]] [2] 0 =
           forward_rest keep_all demo_encoder [[1, 7]] x 0"
       "shape3 x = shape3 [[[1, 0, 0, 0], [7, 0, 0, 0 :: real]]]"
       "\<forall>b < length [[[1, 0, 0, 0], [7, 0, 0, 0 :: real]]].
          \<forall>t < length ([[[1, 0, 0, 0], [7, 0, 0, 0 :: real]]] ! b).
          \<forall>k < length ([[[1, 0, 0, 0], [7, 0, 0, 0 :: real]]] ! b ! t).
            x ! b ! t ! k =
              sqrt (real_of_int (embedding_dim demo_embed)) * [[[1, 0, 0, 0], [7, 0, 0, 0]]] ! b ! t ! k"
    by blast
  from x(3)[rule_format, of 0 1 0] have "x ! 0 ! 1 ! 0 = sqrt 4 * 7"
    by (simp add: demo_embed_def)
  with x(1,2) demo_init l show ?thesis by blast
qed

text \<open>
  The sentence of claim C3 as it is written fails: \<open>forward\<close> does not run the layers on the
  output of dropout. Between the two it exchanges the batch and the time dimension and
  computes the padding mask. On the small encoder and the tokens \<open>[[1, 7]]\<close>, the sequence
  of the claim (its layers given the mask the code gives them) ends in a tensor of shape
  \<open>1 \<times> 2 \<times> 4\<close>, and \<open>forward\<close> returns one of shape \<open>2 \<times> 1 \<times> 4\<close>.
\<close>

theorem forward_sequence_counterexample:
  "TransformerEncoder_init demo_fw demo_args demo_embed True 0 = Inr (demo_encoder, 4) \<and>
   TransformerEncoder_forward keep_all demo_encoder [[1, 7]] [2] 0 =
     Inr (([[[16, 10, 4, 10]], [[88, 10, 4, 10]]], [[True, False]]), 0) \<and>
   claimed_sequence keep_all demo_args demo_embed demo_positional [demo_layer 2, demo_layer 3]
       demo_norm True (layer_mask [[True, False]]) [[1, 7]] 0 =
     Inr ([[[16, 10, 4, 10], [88, 10, 4, 10]]], 0) \<and>
   [[[16, 10, 4, 10]], [[88, 10, 4, 10 :: real]]] \<noteq> [[[16, 10, 4, 10], [88, 10, 4, 10]]]"
proof -
  have c: "claimed_sequence keep_all demo_args demo_embed demo_positional [demo_layer 2, demo_layer 3]
       demo_norm True (layer_mask [[True, False]]) [[1, 7]] 0 =
     Inr ([[[16, 10, 4, 10], [88, 10, 4, 10]]], 0)"
    by (simp add: claimed_sequence_def sequence_to_dropout_def sequence_from_layers_def
        demo_args_def demo_embed_def demo_lookup_def demo_positional_def demo_layer_def
        demo_norm_def shape3_def F_dropout_def numeral_2_eq_2 Let_def)
  have n: "[[[16, 10, 4, 10]], [[88, 10, 4, 10 :: real]]] \<noteq> [[[16, 10, 4, 10], [88, 10, 4, 10]]]"
    by simp
  show ?thesis by (intro conjI demo_init demo_forward c n)
qed

text \<open>
  Claim C3, amended. For every input, \<open>TransformerEncoder.forward\<close> performs the following
  sequence, an exception raised by a step ending the call: scaled token embedding, then
  addition of positional embeddings (skipped when \<open>args.no_token_positional_embeddings\<close>
  made \<open>embed_positions\<close> \<open>None\<close>), then dropout, then exchange of the first two dimensions
  of the tensor and computation of the padding mask \<open>src_tokens == padding_idx\<close>, then
  application of exactly \<open>args.encoder_layers\<close> encoder-layer modules one after another in
  the order they were constructed, each called with the current tensor and the mask (or
  \<open>None\<close> when no token is padding), then a final layer normalisation applied if and only
  if \<open>args.encoder_normalize_before\<close> is true.

  For an encoder built by the constructor there are the positional module and the
  normalisation module the constructor made; the list of layers has exactly
  \<open>encoder_layers\<close> elements, the \<open>i\<close>-th of which is the module returned by the \<open>i\<close>-th call
  of \<open>TransformerEncoderLayer(args)\<close>; and on every input, in either training mode,
  \<open>forward\<close> equals \<open>encoder_sequence\<close>.
\<close>

theorem forward_sequence:
  assumes "TransformerEncoder_init fw a et left_pad g0 = Inr (self, g1)"
  shows "\<exists>pos nl gL.
     embed_positions self = (if args_no_token_positional_embeddings a then None else Some pos) \<and>
     layer_norm self = (if args_encoder_normalize_before a then Some nl else None) \<and>
     length (layers self) = nat (args_encoder_layers a) \<and>
     (\<forall>i < length (layers self).
        \<exists>g'. TransformerEncoderLayer fw a (ctor_state fw a gL i) = Inr (layers self ! i, g')) \<and>
     (\<forall>bern tr src_tokens src_lengths g.
        TransformerEncoder_forward bern (self\<lparr>training := tr\<rparr>) src_tokens src_lengths g =
        encoder_sequence bern a et pos (layers self) nl tr src_tokens g)"
proof -
  note f = init_fields[OF assms]
  from f(10) obtain gL gL' where
    ml: "make_layers fw a (nat (args_encoder_layers a)) gL = Inr (layers self, gL')" by blast
  have len: "length (layers self) = nat (args_encoder_layers a)"
    by (rule make_layers_length[OF ml])
  obtain pos where pos: "embed_positions self = (if args_no_token_positional_embeddings a then None else Some pos)"
    using f(7) by (cases "embed_positions self") auto
  obtain nl where nl: "layer_norm self = (if args_encoder_normalize_before a then Some nl else None)"
    using f(8) by (cases "layer_norm self") auto
  have nth: "\<forall>i < length (layers self).
        \<exists>g'. TransformerEncoderLayer fw a (ctor_state fw a gL i) = Inr (layers self ! i, g')"
    using make_layers_nth[OF ml] len by simp
  have run: "layers_in_order (nat (args_encoder_layers a)) (layers self) tr m x g =
             run_layers (layers self) tr m x g" for tr m x g
    using layers_in_order_all[of "layers self" tr m x g] len by simp
  have add: "(if shape3 p = shape3 x then Inr (map2 (map2 (map2 (+))) x p, g)
              else and_then (iadd3 x p) (\<lambda>y. Inr (y, g))) =
             and_then (iadd3 x p) (\<lambda>y. Inr (y, g))" for p x :: tensor3 and g :: 'a
    by (simp add: iadd3_same_shape)
  have fwd: "TransformerEncoder_forward bern (self\<lparr>training := tr\<rparr>) src_tokens src_lengths g =
        encoder_sequence bern a et pos (layers self) nl tr src_tokens g"
    for bern tr src_tokens src_lengths g
    unfolding TransformerEncoder_forward_def forward_embed_def forward_rest_def
      forward_positions_def encoder_sequence_def sequence_to_dropout_def
      sequence_from_layers_def run add Let_def
    by (auto simp: f(2,3,4,5,6) pos nl and_then_def eq_mask_def layer_mask_def any_true_def
          scale3_def split: sum.splits prod.splits option.splits)
  show ?thesis
    using pos nl len nth fwd by blast
qed

theorem forward_sequence_witness:
  "TransformerEncoder_init demo_fw demo_args demo_embed True 0 = Inr (demo_encoder, 4) \<and>
   length (layers demo_encoder) = 2 \<and>
   TransformerEncoder_forward keep_all demo_encoder [[1, 7]] [2] 0 =
     encoder_sequence keep_all demo_args demo_embed demo_positional [demo_layer 2, demo_layer 3]
       demo_norm True [[1, 7]] 0"
proof -
  have e: "demo_encoder\<lparr>training := True\<rparr> = demo_encoder" by (simp add: demo_encoder_def)
  from forward_sequence[OF demo_init] obtain pos nl where
    p: "embed_positions demo_encoder =
          (if args_no_token_positional_embeddings demo_args then None else Some pos)" and
    n: "layer_norm demo_encoder =
          (if args_encoder_normalize_before demo_args then Some nl else None)" and
    l: "length (layers demo_encoder) = nat (args_encoder_layers demo_args)" and
    f: "\<forall>bern tr src_tokens src_lengths g.
          TransformerEncoder_forward bern (demo_encoder\<lparr>training := tr\<rparr>) src_tokens src_lengths g =
          encoder_sequence bern demo_args demo_embed pos (layers demo_encoder) nl tr src_tokens g"
    by blast
  from p have pos: "pos = demo_positional" by (simp add: demo_encoder_def demo_args_def)
  from n have nl: "nl = demo_norm" by (simp add: demo_encoder_def demo_args_def)
  have ls: "layers demo_encoder = [demo_layer 2, demo_layer 3]" by (simp add: demo_encoder_def)
  from f[rule_format, of keep_all True "[[1, 7]]" "[2]" 0] l show ?thesis
    unfolding e pos nl ls by (simp add: demo_init)
qed

text \<open>
  The sentence of claim C4 as it is written fails: on an input whose last dimension is
  \<open>1\<close> the sum broadcasts, and the output of \<open>PositionalEncoding(2, 0, 3)\<close> on a tensor of
  shape \<open>1 \<times> 1 \<times> 1\<close> has shape \<open>1 \<times> 1 \<times> 2\<close>.
\<close>

theorem forward_shape_counterexample:
  "PositionalEncoding_init 2 0 3 = Inr (demo_pe 2) \<and>
   size1 [[[5 :: real]]] \<le> 3 \<and>
   PositionalEncoding_forward keep_all (demo_pe 2) [[[5]]] 0 = Inr ([[[5, 6]]], 0) \<and>
   shape3 [[[5, 6 :: real]]] \<noteq> shape3 [[[5 :: real]]]"
  by (simp add: demo_pe_init demo_pe_broadcast size1_def shape3_def)

text \<open>
  Claim C4, amended. For every input tensor \<open>x\<close> of shape \<open>B \<times> T \<times> d_model\<close> with
  \<open>T \<le> max_len\<close>, in either training mode, \<open>PositionalEncoding.forward\<close> returns
  \<open>dropout(x + pe[:, :T])\<close>: the first \<open>T\<close> rows of the precomputed table are added entry
  by entry to every matrix of \<open>x\<close>, the result goes through dropout (which is the identity
  outside training or with probability \<open>0\<close>), and the returned tensor has the shape of \<open>x\<close>.
\<close>

theorem forward_adds_table:
  assumes "PositionalEncoding_init d_model p max_len = Inr self"
    and "\<forall>m \<in> set x. length m = T \<and> (\<forall>r \<in> set m. length r = nat d_model)"
    and "T \<le> nat max_len"
  shows "\<exists>y g'. PositionalEncoding_forward bern (self\<lparr>pe_training := tr\<rparr>) x g = Inr (y, g') \<and>
           F_dropout bern (add_table x (pe self ! 0)) p tr g = Inr (y, g') \<and>
           shape3 y = shape3 x \<and>
           (\<not> tr \<or> p = 0 \<longrightarrow> y = add_table x (pe self ! 0)) \<and>
           (\<forall>b < length x. \<forall>t < T. \<forall>k < nat d_model.
              add_table x (pe self ! 0) ! b ! t ! k = x ! b ! t ! k + pe self ! 0 ! t ! k)"
proof -
  from assms(1) have pe: "pe self ! 0 = sinusoid_table d_model max_len"
    by (auto simp: init_cases split: if_splits)
  note f = forward_shaped[OF assms]
  from F_dropout_valid[of p bern "add_table x (pe self ! 0)" tr g] f(2) obtain y g' where
    d: "F_dropout bern (add_table x (pe self ! 0)) p tr g = Inr (y, g')" and
    s: "shape3 y = shape3 (add_table x (pe self ! 0))"
    by blast
  have sh: "shape3 (add_table x (pe self ! 0)) = shape3 x"
    unfolding pe using assms(2,3)
    by (intro shape3_add_table[where T=T and n="nat d_model"]) (simp_all add: sinusoid_table_shape)
  have inact: "y = add_table x (pe self ! 0)" if "\<not> tr \<or> p = 0"
    using d that f(2) by (auto simp: F_dropout_def split: if_splits)
  have entry: "add_table x (pe self ! 0) ! b ! t ! k = x ! b ! t ! k + pe self ! 0 ! t ! k"
    if "b < length x" "t < T" "k < nat d_model" for b t k
  proof -
    have xb: "x ! b \<in> set x" using that(1) by simp
    then have lb: "length (x ! b) = T" using assms(2) by simp
    then have "x ! b ! t \<in> set (x ! b)" using that(2) by simp
    then have lr: "length (x ! b ! t) = nat d_model" using assms(2) xb by blast
    have "x \<noteq> []" using that(1) by auto
    then have sz: "size1 x = T" using assms(2) by (cases x) (simp_all add: size1_def)
    have lt: "length (pe self ! 0) = nat max_len" "length (pe self ! 0 ! t) = nat d_model"
      using that(2) assms(3) by (simp_all add: pe sinusoid_table_def sinusoid_row_def)
    show ?thesis
      using that lb lr sz lt assms(3) by (simp add: add_table_def)
  qed
  have fw: "PositionalEncoding_forward bern (self\<lparr>pe_training := tr\<rparr>) x g = Inr (y, g')"
    unfolding f(1) pe[symmetric] by (rule d)
  show ?thesis
    using fw d s sh inact entry by (intro exI[of _ y] exI[of _ g']) simp
qed


theorem forward_adds_table_witness:
  "PositionalEncoding_init 4 0 3 = Inr (demo_pe 4) \<and>
   (\<exists>y g'. PositionalEncoding_forward keep_all ((demo_pe 4)\<lparr>pe_training := False\<rparr>)
              [[[1, 2, 3, 4], [5, 6, 7, 8]]] 0 = Inr (y, g') \<and>
            shape3 y = shape3 [[[1, 2, 3, 4], [5, 6, 7, 8 :: real]]] \<and>
            y = add_table [[[1, 2, 3, 4], [5, 6, 7, 8]]] (pe (demo_pe 4) ! 0))"
proof -
  have h: "PositionalEncoding_init 4 0 3 = Inr (demo_pe 4)"
    by (rule demo_pe_init) simp_all
  have sh: "\<forall>m \<in> set [[[1, 2, 3, 4], [5, 6, 7, 8 :: real]]].
              length m = 2 \<and> (\<forall>r \<in> set m. length r = nat 4)" by simp
  have t: "(2::nat) \<le> nat 3" by simp
  from forward_adds_table[OF h sh t, of keep_all False 0] h show ?thesis by auto
qed

text \<open>
  The sentence of claim C5 as it is written fails twice. In the \<open>int64\<close> matrix
  \<open>[[0, 1, 4], [2, -2, 0]]\<close> the first row has maximum \<open>4\<close> above its minimum \<open>0\<close>, the
  formula gives \<open>[0, 1/4, 1]\<close>, and the output row is \<open>[0, 0, 1]\<close>: \<open>np.zeros_like\<close> made
  an integer array and the store truncates. In the \<open>float32\<close> row \<open>[-2\<^bsup>127\<^esup>, 0, 2\<^bsup>127\<^esup>]\<close>
  the maximum exceeds the minimum, their difference overflows to infinity, and the output
  row is \<open>[0, 0, NaN]\<close>, whose maximum is not \<open>1\<close>.
\<close>

theorem normalize_minmax_counterexample:
  "np_min (demo_matrix ! 0) = Inr (Fin 0) \<and> np_max (demo_matrix ! 0) = Inr (Fin 4) \<and>
   np_lt (Fin 0) (Fin 4) \<and>
   normalize_row (SInt 64) (demo_matrix ! 0) = Inr [Fin 0, Fin (1/4), Fin 1] \<and>
   normalize_arr demo_cast (demo_store (SInt 64) demo_matrix) 0 =
     Inr (1, demo_result (SInt 64) demo_matrix [[Fin 0, Fin 0, Fin 1], [Fin 1, Fin 0, Fin 0]]) \<and>
   rows (cell (demo_result (SInt 64) demo_matrix [[Fin 0, Fin 0, Fin 1], [Fin 1, Fin 0, Fin 0]]) 1) ! 0
     \<noteq> [Fin 0, Fin (1/4), Fin 1] \<and>
   np_min (wide_matrix ! 0) = Inr (Fin (- (2 ^ 127))) \<and>
   np_max (wide_matrix ! 0) = Inr (Fin (2 ^ 127)) \<and>
   np_lt (Fin (- (2 ^ 127))) (Fin (2 ^ 127)) \<and>
   normalize_arr demo_cast (demo_store Float32 wide_matrix) 0 =
     Inr (1, demo_result Float32 wide_matrix [[Fin 0, Fin 0, NaN]]) \<and>
   rows (cell (demo_result Float32 wide_matrix [[Fin 0, Fin 0, NaN]]) 1) ! 0 = [Fin 0, Fin 0, NaN] \<and>
   np_max [Fin 0, Fin 0, NaN] \<noteq> Inr (Fin 1)"
  by (simp add: demo_int demo_wide)
     (simp add: demo_matrix_def wide_matrix_def demo_result_def np_lt_def normalize_row_def
        subtract_def subtract_scalar_def wrap_signed_def overflow_def)

text \<open>
  Claim C5, amended. \<open>normalize\<close> performs row-wise min-max normalisation: for every input
  matrix of a floating dtype and every row \<open>r\<close> whose entries are all finite, whose maximum
  strictly exceeds its minimum and in which the difference of the two does not exceed the
  largest finite value of the dtype, the output row \<open>r\<close> equals
  \<open>(arr[r] - min(arr[r])) / (max(arr[r]) - min(arr[r]))\<close>, so every entry of that output row
  lies in \<open>[0, 1]\<close>, with minimum exactly \<open>0\<close> and maximum exactly \<open>1\<close>.
\<close>

theorem normalize_minmax:
  assumes "normalize_arr c s arr = Inr (out, s')" and "arr < next_addr s"
    and "is_floating (dtype (cell s arr))"
    and "r < length (rows (cell s arr))"
    and "rows (cell s arr) ! r = map Fin vs"
    and "Min (set vs) < Max (set vs)"
    and "Max (set vs) - Min (set vs) \<le> float_max (dtype (cell s arr))"
  shows "rows (cell s' out) ! r = map Fin (minmax vs) \<and>
         (\<forall>x \<in> set (rows (cell s' out) ! r). np_le (Fin 0) x \<and> np_le x (Fin 1)) \<and>
         np_min (rows (cell s' out) ! r) = Inr (Fin 0) \<and>
         np_max (rows (cell s' out) ! r) = Inr (Fin 1)"
proof -
  let ?dt = "dtype (cell s arr)"
  from normalize_out_row[OF assms(1,2,4)] obtain y where
    y: "normalize_row ?dt (map Fin vs) = Inr y" and
    row: "rows (cell s' out) ! r = map (store_cast c ?dt) y"
    using assms(5) by auto
  have ne: "vs \<noteq> []" using y by (auto simp: normalize_row_def)
  have y': "y = map Fin (minmax vs)"
    using y normalize_row_minmax[OF assms(3) ne assms(6,7)] by simp
  note b = minmax_bounds[OF ne assms(6)]
  have "map (store_cast c ?dt) (map Fin (minmax vs)) = map Fin (minmax vs)"
    using b(1) assms(3) by (simp add: store_cast_unit)
  then have "rows (cell s' out) ! r = map Fin (minmax vs)"
    using row y' by simp
  then show ?thesis
    using b np_min_unit[OF b] by auto
qed

theorem normalize_minmax_witness:
  "rows (cell (demo_result Float32 demo_matrix
       [[Fin 0, Fin (1/4), Fin 1], [Fin 1, Fin 0, Fin (1/2)]]) 1) ! 0 = map Fin (minmax [0, 1, 4]) \<and>
   np_min (rows (cell (demo_result Float32 demo_matrix
       [[Fin 0, Fin (1/4), Fin 1], [Fin 1, Fin 0, Fin (1/2)]]) 1) ! 0) = Inr (Fin 0) \<and>
   np_max (rows (cell (demo_result Float32 demo_matrix
       [[Fin 0, Fin (1/4), Fin 1], [Fin 1, Fin 0, Fin (1/2)]]) 1) ! 0) = Inr (Fin 1)"
proof -
  have a: "(0::nat) < next_addr (demo_store Float32 demo_matrix)"
    by (simp add: demo_store_def)
  have d: "is_floating (dtype (cell (demo_store Float32 demo_matrix) 0))"
    by (simp add: demo_store_def is_floating_def)
  have r: "(0::nat) < length (rows (cell (demo_store Float32 demo_matrix) 0))"
    by (simp add: demo_store_def demo_matrix_def)
  have v: "rows (cell (demo_store Float32 demo_matrix) 0) ! 0 = map Fin [0, 1, 4]"
    by (simp add: demo_store_def demo_matrix_def)
  have m: "Min (set [0, 1, 4 :: real]) < Max (set [0, 1, 4 :: real])" by simp
  have w: "Max (set [0, 1, 4 :: real]) - Min (set [0, 1, 4 :: real]) \<le>
           float_max (dtype (cell (demo_store Float32 demo_matrix) 0))"
    by (simp add: demo_store_def)
  from normalize_minmax[OF demo_float[of demo_cast] a d r v m w] show ?thesis by blast
qed

text \<open>
  The sentence of claim C6 as it is written fails for both functions. The boolean matrix
  \<open>[[True, False]]\<close> has a row and a column, and \<open>normalize\<close> raises TypeError on it at
  \<open>vals - np.min(vals)\<close>, subtraction not being defined on booleans. A tensor of shape
  \<open>1 \<times> 1 \<times> 3\<close> has sequence length \<open>1 \<le> max_len\<close>, and the module built by
  \<open>PositionalEncoding(2, 0, 3)\<close> raises RuntimeError on it, the last dimensions \<open>3\<close> and \<open>2\<close>
  not being broadcastable.
\<close>

theorem glue_code_raises_counterexample:
  "bool_matrix \<noteq> [] \<and> bool_matrix ! 0 \<noteq> [] \<and>
   normalize_arr demo_cast (demo_store Boolean bool_matrix) 0 = Inl TypeError \<and>
   PositionalEncoding_init 2 0 3 = Inr (demo_pe 2) \<and>
   size1 [[[1, 2, 3 :: real]]] \<le> 3 \<and>
   PositionalEncoding_forward keep_all (demo_pe 2) [[[1, 2, 3]]] 0 = Inl RuntimeError"
proof -
  have 1: "bool_matrix \<noteq> []" "bool_matrix ! 0 \<noteq> []" by (simp_all add: bool_matrix_def)
  have 2: "PositionalEncoding_init 2 0 3 = Inr (demo_pe 2)" by (simp add: demo_pe_init)
  have 3: "size1 [[[1, 2, 3 :: real]]] \<le> 3" by (simp add: size1_def)
  show ?thesis by (intro conjI 1 2 3 demo_bool demo_pe_mismatch)
qed

text \<open>
  Claim C6, amended. The glue code defines no error case of its own (every constructor of
  \<open>error\<close> is an exception of Python, NumPy or PyTorch): for every input matrix of a
  floating or integer dtype with at least one row and one column (indeed whenever no row
  is empty), \<open>normalize\<close> returns a result without raising, and for every tensor of shape
  \<open>B \<times> T \<times> d_model\<close> with \<open>T \<le> max_len\<close>, \<open>PositionalEncoding.forward\<close> returns a result
  without raising, in either training mode.
\<close>

theorem glue_code_returns:
  "(arr < next_addr s \<and> dtype (cell s arr) \<noteq> Boolean \<and>
    (\<forall>row \<in> set (rows (cell s arr)). row \<noteq> []) \<longrightarrow>
      (\<exists>out s'. normalize_arr c s arr = Inr (out, s'))) \<and>
   (PositionalEncoding_init d_model p max_len = Inr self \<and>
    (\<forall>m \<in> set x. length m = T \<and> (\<forall>r \<in> set m. length r = nat d_model)) \<and> T \<le> nat max_len \<longrightarrow>
      (\<exists>y g'. PositionalEncoding_forward bern (self\<lparr>pe_training := tr\<rparr>) x g = Inr (y, g')))"
proof (intro conjI impI)
  assume a: "arr < next_addr s \<and> dtype (cell s arr) \<noteq> Boolean \<and>
    (\<forall>row \<in> set (rows (cell s arr)). row \<noteq> [])"
  let ?dt = "dtype (cell s arr)"
  have "\<exists>outs. collect (map (normalize_row ?dt) (rows (cell s arr))) = Inr outs"
  proof -
    have "\<forall>row \<in> set (rows (cell s arr)). \<exists>r. normalize_row ?dt row = Inr r"
      using a normalize_row_nonempty by blast
    then obtain h where "\<forall>row \<in> set (rows (cell s arr)). normalize_row ?dt row = Inr (h row)"
      by metis
    then have "collect (map (normalize_row ?dt) (rows (cell s arr))) = Inr (map h (rows (cell s arr)))"
      by (intro collect_map_Inr) simp
    then show ?thesis by blast
  qed
  then show "\<exists>out s'. normalize_arr c s arr = Inr (out, s')"
    using a by (auto simp: normalize_eq)
next
  assume b: "PositionalEncoding_init d_model p max_len = Inr self \<and>
    (\<forall>m \<in> set x. length m = T \<and> (\<forall>r \<in> set m. length r = nat d_model)) \<and> T \<le> nat max_len"
  then have i: "PositionalEncoding_init d_model p max_len = Inr self"
    and sh: "\<forall>m \<in> set x. length m = T \<and> (\<forall>r \<in> set m. length r = nat d_model)"
    and t: "T \<le> nat max_len" by blast+
  note f = forward_shaped[OF i sh t]
  from F_dropout_valid[of p bern "add_table x (sinusoid_table d_model max_len)" tr g] f(2)
  show "\<exists>y g'. PositionalEncoding_forward bern (self\<lparr>pe_training := tr\<rparr>) x g = Inr (y, g')"
    unfolding f(1) by blast
qed

theorem glue_code_returns_witness:
  "(\<exists>out s'. normalize_arr demo_cast (demo_store (SInt 64) demo_matrix) 0 = Inr (out, s')) \<and>
   (\<exists>y g'. PositionalEncoding_forward keep_all ((demo_pe 4)\<lparr>pe_training := True\<rparr>)
              [[[1, 2, 3, 4], [5, 6, 7, 8]]] 0 = Inr (y, g'))"
proof -
  have a: "0 < next_addr (demo_store (SInt 64) demo_matrix) \<and>
           dtype (cell (demo_store (SInt 64) demo_matrix) 0) \<noteq> Boolean \<and>
           (\<forall>row \<in> set (rows (cell (demo_store (SInt 64) demo_matrix) 0)). row \<noteq> [])"
    by (simp add: demo_store_def demo_matrix_def)
  have b: "PositionalEncoding_init 4 0 3 = Inr (demo_pe 4) \<and>
           (\<forall>m \<in> set [[[1, 2, 3, 4], [5, 6, 7, 8 :: real]]].
              length m = 2 \<and> (\<forall>r \<in> set m. length r = nat 4)) \<and> (2::nat) \<le> nat 3"
    by (simp add: demo_pe_init)
  note t = glue_code_returns[of 0 "demo_store (SInt 64) demo_matrix" demo_cast 4 0 3 "demo_pe 4"
      "[[[1, 2, 3, 4], [5, 6, 7, 8]]]" 2 keep_all True 0]
  from t[THEN conjunct1, rule_format, OF a] t[THEN conjunct2, rule_format, OF b]
  show ?thesis by blast
qed

text \<open>
  The sentence of claim C7 as it is written fails. The attribute \<open>dropout\<close> of the encoder
  controls only the call of \<open>F.dropout\<close> in \<open>forward\<close>; a layer has dropouts of its own. With
  dropout probability \<open>0\<close> and training mode on, an encoder whose layer draws from the
  generator returns, on the same tokens, one output on a first call and another on the
  next, and each call changes the generator state.
\<close>

theorem forward_deterministic_counterexample:
  "dropout noisy_encoder = 0 \<and>
   TransformerEncoder_forward keep_all noisy_encoder [[1, 7]] [2] 0 =
     Inr (([[[2, 1, 0, 1]], [[14, 1, 0, 1]]], [[True, False]]), 1) \<and>
   TransformerEncoder_forward keep_all noisy_encoder [[1, 7]] [2] 1 =
     Inr (([[[4, 2, 0, 2]], [[28, 2, 0, 2]]], [[True, False]]), 2) \<and>
   [[[2, 1, 0, 1]], [[14, 1, 0, 1 :: real]]] \<noteq> [[[4, 2, 0, 2]], [[28, 2, 0, 2]]]"
proof -
  have d: "dropout noisy_encoder = 0" by (simp add: noisy_encoder_def demo_encoder_def)
  have n: "[[[2, 1, 0, 1]], [[14, 1, 0, 1 :: real]]] \<noteq> [[[4, 2, 0, 2]], [[28, 2, 0, 2]]]"
    by simp
  show ?thesis by (intro conjI d n noisy_first noisy_second)
qed

text \<open>
  Claim C7, amended. With dropout inactive (training mode off or dropout probability \<open>0\<close>)
  and provided that no submodule of the encoder (the token embedding, the positional
  embedding, the layers, the layer normalisation) uses the random generator in the
  encoder's mode, execution is deterministic: a call of \<open>TransformerEncoder.forward\<close> from
  any generator state and with any sampler gives the result of a call on the same inputs
  from any other state with any other sampler, and leaves the generator state as it found
  it. With dropout inactive the same holds of \<open>PositionalEncoding.forward\<close>, which has no
  submodule but its dropout. The generator is the only state a call reads or writes
  besides its arguments, so two such calls on equal inputs with equal module parameters
  return equal outputs.
\<close>

theorem forward_deterministic:
  assumes "\<not> training self \<or> dropout self = 0"
    and "rng_free (training self) (lookup (embed_tokens self))"
    and "\<forall>ep. embed_positions self = Some ep \<longrightarrow> rng_free (training self) ep"
    and "\<forall>l \<in> set (layers self). rng_free (training self) l"
    and "\<forall>nl. layer_norm self = Some nl \<longrightarrow> rng_free (training self) nl"
    and "\<not> pe_training pos_enc \<or> pe_dropout pos_enc = 0"
  shows "TransformerEncoder_forward bern' self src_tokens src_lengths g' =
           with_state g'
             (TransformerEncoder_forward bern self src_tokens src_lengths g) \<and>
         PositionalEncoding_forward bern' pos_enc x g' =
           with_state g' (PositionalEncoding_forward bern pos_enc x g)"
proof
  show "TransformerEncoder_forward bern' self src_tokens src_lengths g' =
           with_state g'
             (TransformerEncoder_forward bern self src_tokens src_lengths g)"
    unfolding TransformerEncoder_forward_def
    by (rule and_then_state, rule forward_embed_state[OF assms(2)], simp only: prod.case,
        rule forward_rest_state[OF assms(1,3,4,5)])
  show "PositionalEncoding_forward bern' pos_enc x g' =
           with_state g' (PositionalEncoding_forward bern pos_enc x g)"
    unfolding PositionalEncoding_forward_def
    by (rule and_then_pure) (rule F_dropout_state[OF assms(6)])
qed

theorem forward_deterministic_witness:
  "TransformerEncoder_forward keep_all demo_encoder [[1, 7]] [2] 5 =
     with_state 5 (TransformerEncoder_forward keep_all demo_encoder [[1, 7]] [2] 0) \<and>
   TransformerEncoder_forward keep_all demo_encoder [[1, 7]] [2] 5 =
     Inr (([[[16, 10, 4, 10]], [[88, 10, 4, 10]]], [[True, False]]), 5) \<and>
   PositionalEncoding_forward keep_all (demo_pe 4) [[[1, 2, 3, 4]]] 5 =
     with_state 5 (PositionalEncoding_forward keep_all (demo_pe 4) [[[1, 2, 3, 4]]] 0)"
proof -
  have 1: "\<not> training demo_encoder \<or> dropout demo_encoder = 0"
    by (simp add: demo_encoder_def)
  have 2: "rng_free (training demo_encoder) (lookup (embed_tokens demo_encoder))"
    by (simp add: demo_encoder_def demo_embed_def demo_modules_rng_free)
  have 3: "\<forall>ep. embed_positions demo_encoder = Some ep \<longrightarrow> rng_free (training demo_encoder) ep"
    by (simp add: demo_encoder_def demo_modules_rng_free)
  have 4: "\<forall>l \<in> set (layers demo_encoder). rng_free (training demo_encoder) l"
    by (simp add: demo_encoder_def demo_modules_rng_free)
  have 5: "\<forall>nl. layer_norm demo_encoder = Some nl \<longrightarrow> rng_free (training demo_encoder) nl"
    by (simp add: demo_encoder_def demo_modules_rng_free)
  have 6: "\<not> pe_training (demo_pe 4) \<or> pe_dropout (demo_pe 4) = 0"
    by (simp add: demo_pe_def)
  note t = forward_deterministic[OF 1 2 3 4 5 6]
  have a: "TransformerEncoder_forward keep_all demo_encoder [[1, 7]] [2] 5 =
     with_state 5 (TransformerEncoder_forward keep_all demo_encoder [[1, 7]] [2] 0)"
    by (rule t[THEN conjunct1])
  have b: "PositionalEncoding_forward keep_all (demo_pe 4) [[[1, 2, 3, 4]]] 5 =
     with_state 5 (PositionalEncoding_forward keep_all (demo_pe 4) [[[1, 2, 3, 4]]] 0)"
    by (rule t[THEN conjunct2])
  from a have c: "TransformerEncoder_forward keep_all demo_encoder [[1, 7]] [2] 5 =
     Inr (([[[16, 10, 4, 10]], [[88, 10, 4, 10]]], [[True, False]]), 5)"
    by (simp add: demo_forward)
  from a b c show ?thesis by blast
qed

text \<open>
  Claim C8. Whenever \<open>TransformerEncoder.forward\<close> returns, the second component of the
  pair is the elementwise mask \<open>src_tokens == padding_idx\<close>, of the shape of \<open>src_tokens\<close>.
  When no token is the padding index it is the all-false mask, not \<open>None\<close>; \<open>None\<close> is
  substituted only in \<open>layer_mask\<close>, the argument with which the layers were run.
\<close>

theorem forward_returns_mask:
  assumes "TransformerEncoder_forward bern self src_tokens src_lengths g = Inr ((x, m), g')"
  shows "\<exists>p. self_padding_idx self = Some p \<and>
           m = map (map (\<lambda>t. t = p)) src_tokens \<and>
           map length m = map length src_tokens \<and>
           ((\<forall>row \<in> set src_tokens. p \<notin> set row) \<longrightarrow>
              m = map (map (\<lambda>_. False)) src_tokens \<and> layer_mask m = None) \<and>
           (\<exists>x3 g2 x4 g3.
              run_layers (layers self) (training self) (layer_mask m) x3 g2 = Inr (x4, g3))"
proof -
  from assms obtain p x3 g2 x4 g3 where
    p: "self_padding_idx self = Some p" and m: "m = map (map (\<lambda>t. t = p)) src_tokens" and
    r: "run_layers (layers self) (training self) (layer_mask m) x3 g2 = Inr (x4, g3)"
    by (auto simp: TransformerEncoder_forward_def forward_rest_def and_then_def eq_mask_def Let_def
             split: sum.splits prod.splits option.splits if_splits)
  have ex: "\<exists>x3 g2 x4 g3.
      run_layers (layers self) (training self) (layer_mask m) x3 g2 = Inr (x4, g3)"
    using r by blast
  have sh: "map length m = map length src_tokens" by (simp add: m o_def)
  have "m = map (map (\<lambda>_. False)) src_tokens \<and> layer_mask m = None"
    if "\<forall>row \<in> set src_tokens. p \<notin> set row"
  proof -
    have "map (\<lambda>t. t = p) row = map (\<lambda>_. False) row" if "row \<in> set src_tokens" for row
      using that \<open>\<forall>row \<in> set src_tokens. p \<notin> set row\<close> by (intro map_cong) auto
    then have e: "m = map (map (\<lambda>_. False)) src_tokens" by (simp add: m)
    then show ?thesis by (auto simp: layer_mask_def any_true_def list_ex_iff)
  qed
  then show ?thesis using p m sh ex by blast
qed

theorem forward_returns_mask_witness:
  "TransformerEncoder_forward keep_all demo_encoder [[1, 7]] [2] 0 =
     Inr (([[[16, 10, 4, 10]], [[88, 10, 4, 10]]], [[True, False]]), 0) \<and>
   self_padding_idx demo_encoder = Some 1 \<and>
   [[True, False]] = map (map (\<lambda>t. t = 1)) [[1, 7 :: int]]"
proof -
  from forward_returns_mask[OF demo_forward] have
    "\<exists>p. self_padding_idx demo_encoder = Some p \<and>
         [[True, False]] = map (map (\<lambda>t. t = p)) [[1, 7 :: int]]"
    by (elim exE conjE) (intro exI conjI; assumption)
  then show ?thesis using demo_forward by (auto simp: demo_encoder_def)
qed

text \<open>
  The sentence of claim C9 as it is written fails. The \<open>float32\<close> row
  \<open>[-2\<^bsup>127\<^esup>, 0, 2\<^bsup>127\<^esup>]\<close> is a row of finite reals whose maximum exceeds its minimum, but
  their difference overflows to infinity: \<open>normalize\<close> returns \<open>[0, 0, NaN]\<close>, and \<open>normalize\<close>
  of that is \<open>[NaN, NaN, NaN]\<close>.
\<close>

theorem normalize_idempotent_counterexample:
  "np_min (wide_matrix ! 0) = Inr (Fin (- (2 ^ 127))) \<and>
   np_max (wide_matrix ! 0) = Inr (Fin (2 ^ 127)) \<and>
   np_lt (Fin (- (2 ^ 127))) (Fin (2 ^ 127)) \<and>
   normalize_arr demo_cast (demo_store Float32 wide_matrix) 0 =
     Inr (1, demo_result Float32 wide_matrix [[Fin 0, Fin 0, NaN]]) \<and>
   normalize_arr demo_cast (demo_result Float32 wide_matrix [[Fin 0, Fin 0, NaN]]) 1 =
     Inr (2, demo_second Float32 wide_matrix [[Fin 0, Fin 0, NaN]] [[NaN, NaN, NaN]]) \<and>
   rows (cell (demo_second Float32 wide_matrix [[Fin 0, Fin 0, NaN]] [[NaN, NaN, NaN]]) 2) \<noteq>
   rows (cell (demo_result Float32 wide_matrix [[Fin 0, Fin 0, NaN]]) 1)"
proof -
  have 1: "np_min (wide_matrix ! 0) = Inr (Fin (- (2 ^ 127)))"
    and 2: "np_max (wide_matrix ! 0) = Inr (Fin (2 ^ 127))"
    and 3: "np_lt (Fin (- (2 ^ 127))) (Fin (2 ^ 127))"
    by (simp_all add: wide_matrix_def np_lt_def)
  have 4: "rows (cell (demo_second Float32 wide_matrix [[Fin 0, Fin 0, NaN]] [[NaN, NaN, NaN]]) 2) \<noteq>
           rows (cell (demo_result Float32 wide_matrix [[Fin 0, Fin 0, NaN]]) 1)"
    by (simp add: demo_second_def demo_result_def)
  show ?thesis by (intro conjI 1 2 3 4 demo_wide demo_wide_again)
qed

text \<open>
  Claim C9, amended. \<open>normalize\<close> is idempotent on its domain: for every matrix of a floating
  dtype with finite entries in which every row's maximum strictly exceeds its minimum and
  the difference of the two does not exceed the largest finite value of the dtype,
  \<open>normalize(a)\<close> returns, \<open>normalize\<close> of its result returns, and the two results are equal
  arrays, because each row of \<open>normalize(a)\<close> already has minimum \<open>0\<close> and maximum \<open>1\<close>.
\<close>

theorem normalize_idempotent:
  assumes "arr < next_addr s" and "is_floating (dtype (cell s arr))"
    and "rows (cell s arr) = map (map Fin) a"
    and "\<forall>vs \<in> set a. vs \<noteq> [] \<and> Min (set vs) < Max (set vs) \<and>
           Max (set vs) - Min (set vs) \<le> float_max (dtype (cell s arr))"
  shows "\<exists>o1 s1 o2 s2. normalize_arr c s arr = Inr (o1, s1) \<and>
           normalize_arr c s1 o1 = Inr (o2, s2) \<and> cell s2 o2 = cell s1 o1"
proof -
  let ?dt = "dtype (cell s arr)"
  let ?o1 = "next_addr s"
  let ?s1 = "s\<lparr>next_addr := Suc (next_addr s),
         cell := (cell s)(next_addr s := \<lparr>dtype = ?dt, rows = map (map Fin) (map minmax a)\<rparr>)\<rparr>"
  have first: "normalize_arr c s arr = Inr (?o1, ?s1)"
    by (rule normalize_arr_finite[OF assms])
  have o1: "?o1 < next_addr ?s1" by simp
  have dt1: "dtype (cell ?s1 ?o1) = ?dt" by simp
  have fl1: "is_floating (dtype (cell ?s1 ?o1))" using assms(2) by simp
  have rows1: "rows (cell ?s1 ?o1) = map (map Fin) (map minmax a)" by simp
  have unit: "\<forall>qs \<in> set (map minmax a). qs \<noteq> [] \<and> Min (set qs) < Max (set qs) \<and>
                Max (set qs) - Min (set qs) \<le> float_max (dtype (cell ?s1 ?o1))"
  proof
    fix qs assume "qs \<in> set (map minmax a)"
    then obtain vs where vs: "vs \<in> set a" "qs = minmax vs" by auto
    then have h: "vs \<noteq> []" "Min (set vs) < Max (set vs)" using assms(4) by simp_all
    have "Min (set qs) = 0" "Max (set qs) = 1" "qs \<noteq> []"
      using unit_range_min_max[OF minmax_bounds[OF h]] minmax_bounds(2)[OF h] vs(2) by auto
    then show "qs \<noteq> [] \<and> Min (set qs) < Max (set qs) \<and>
                Max (set qs) - Min (set qs) \<le> float_max (dtype (cell ?s1 ?o1))"
      using float_max_ge_1[of ?dt] by simp
  qed
  have idem: "map minmax (map minmax a) = map minmax a"
  proof -
    have "minmax (minmax vs) = minmax vs" if "vs \<in> set a" for vs
      using that assms(4) minmax_idem[of vs] by simp
    then show ?thesis by simp
  qed
  have second: "normalize_arr c ?s1 ?o1 =
      Inr (next_addr ?s1, ?s1\<lparr>next_addr := Suc (next_addr ?s1),
         cell := (cell ?s1)(next_addr ?s1 := \<lparr>dtype = ?dt, rows = map (map Fin) (map minmax a)\<rparr>)\<rparr>)"
    using normalize_arr_finite[OF o1 fl1 rows1 unit, of c] unfolding dt1 idem .
  show ?thesis
    by (intro exI conjI, rule first, rule second) simp
qed

theorem normalize_idempotent_witness:
  "\<exists>o1 s1 o2 s2. normalize_arr demo_cast (demo_store Float32 demo_matrix) 0 = Inr (o1, s1) \<and>
     normalize_arr demo_cast s1 o1 = Inr (o2, s2) \<and> cell s2 o2 = cell s1 o1"
proof -
  have a: "0 < next_addr (demo_store Float32 demo_matrix)" by (simp add: demo_store_def)
  have f: "is_floating (dtype (cell (demo_store Float32 demo_matrix) 0))"
    by (simp add: demo_store_def is_floating_def)
  have r: "rows (cell (demo_store Float32 demo_matrix) 0) = map (map Fin) [[0, 1, 4], [2, - 2, 0]]"
    by (simp add: demo_store_def demo_matrix_def)
  have m: "\<forall>vs \<in> set [[0, 1, 4], [2, - 2, 0 :: real]]. vs \<noteq> [] \<and> Min (set vs) < Max (set vs) \<and>
             Max (set vs) - Min (set vs) \<le> float_max (dtype (cell (demo_store Float32 demo_matrix) 0))"
    by (simp add: demo_store_def)
  show ?thesis by (rule normalize_idempotent[OF a f r m])
qed

text \<open>
  Claim C10. \<open>normalize\<close> never modifies its argument. When a call on the array at address
  \<open>arr\<close> returns, the array at \<open>arr\<close> is what it was before the call, the result is a newly
  allocated array, and no array that existed before the call has changed: every write of the
  loop goes to the new array.
\<close>

theorem normalize_frame:
  assumes "normalize_arr c s arr = Inr (out, s')" and "arr < next_addr s"
  shows "cell s' arr = cell s arr \<and> out = next_addr s \<and> (\<forall>p. p \<noteq> out \<longrightarrow> cell s' p = cell s p)"
  using assms by (auto simp: normalize_eq split: sum.splits)

theorem normalize_frame_witness:
  "normalize_arr demo_cast (demo_store Float32 demo_matrix) 0 =
     Inr (1, demo_result Float32 demo_matrix
               [[Fin 0, Fin (1/4), Fin 1], [Fin 1, Fin 0, Fin (1/2)]]) \<and>
   0 < next_addr (demo_store Float32 demo_matrix) \<and>
   cell (demo_result Float32 demo_matrix
           [[Fin 0, Fin (1/4), Fin 1], [Fin 1, Fin 0, Fin (1/2)]]) 0 =
     cell (demo_store Float32 demo_matrix) 0"
proof -
  have r: "normalize_arr demo_cast (demo_store Float32 demo_matrix) 0 =
     Inr (1, demo_result Float32 demo_matrix
               [[Fin 0, Fin (1/4), Fin 1], [Fin 1, Fin 0, Fin (1/2)]])"
    by (rule demo_float)
  have a: "0 < next_addr (demo_store Float32 demo_matrix)" by (simp add: demo_store_def)
  show ?thesis using normalize_frame[OF r a] r a by simp
qed

end
